theory Spec2Isabelle
  imports Complex_Main
begin

section \<open>Values shared by the detector and the request handlers\<close>

text \<open>
  A Python exception is kept as its class name and the text \<open>str(e)\<close> gives, which is what
  the handlers of \<^verbatim>\<open>app.py\<close> put into their error messages.
\<close>

datatype exn = Exn string string

fun str :: "exn \<Rightarrow> string" where
  "str (Exn cls msg) = msg"

text \<open>
  A Python float: a finite value (every binary floating-point number is a rational) or one
  of the three special values. Arithmetic on floats is never modelled here; the only
  operation the code applies itself is \<open>int(x)\<close>, truncation towards zero, which raises
  on the special values.
\<close>

datatype pyfloat = Fin rat | NaN | PosInf | NegInf

fun py_int :: "pyfloat \<Rightarrow> exn + int" where
  "py_int (Fin q) = Inr (if 0 \<le> q then \<lfloor>q\<rfloor> else \<lceil>q\<rceil>)"
| "py_int NaN = Inl (Exn ''ValueError'' ''cannot convert float NaN to integer'')"
| "py_int PosInf = Inl (Exn ''OverflowError'' ''cannot convert float infinity to integer'')"
| "py_int NegInf = Inl (Exn ''OverflowError'' ''cannot convert float infinity to integer'')"

section \<open>Detections and statistics (\<^verbatim>\<open>utils/detector.py\<close>)\<close>

text \<open>
  The dictionary \<^verbatim>\<open>{'class': ..., 'confidence': ..., 'bbox': [x1, y1, x2, y2]}\<close> that the
  detector appends for every box. The field \<^verbatim>\<open>'class'\<close> is called \<open>class_name\<close> here.
\<close>

record detection =
  class_name :: string
  confidence :: pyfloat
  bbox :: "int list"

text \<open>
  A Python dict keeps its keys in insertion order, so \<^verbatim>\<open>stats['categories']\<close> is an
  association list: \<open>dict_get\<close> is the lookup, \<open>dict_set\<close> is \<^verbatim>\<open>d[k] = v\<close> (overwrite
  in place, or append a new key at the end).
\<close>

type_synonym 'v dict = "(string \<times> 'v) list"

fun dict_get :: "'v dict \<Rightarrow> string \<Rightarrow> 'v option" where
  "dict_get [] k = None"
| "dict_get ((k', v) # kvs) k = (if k' = k then Some v else dict_get kvs k)"

fun dict_set :: "'v dict \<Rightarrow> string \<Rightarrow> 'v \<Rightarrow> 'v dict" where
  "dict_set [] k v = [(k, v)]"
| "dict_set ((k', v') # kvs) k v =
     (if k' = k then (k, v) # kvs else (k', v') # dict_set kvs k v)"

record statistics =
  total_items :: nat
  categories :: "nat dict"

text \<open>
  The body of the loop of \<^verbatim>\<open>get_statistics\<close>:
  \<^verbatim>\<open>if class_name not in cats: cats[class_name] = 0\<close> and then
  \<^verbatim>\<open>cats[class_name] += 1\<close>.
\<close>

definition count_detection :: "nat dict \<Rightarrow> detection \<Rightarrow> nat dict" where
  "count_detection cats d =
     (let cats1 = (case dict_get cats (class_name d) of
                     None \<Rightarrow> dict_set cats (class_name d) 0
                   | Some _ \<Rightarrow> cats)
      in case dict_get cats1 (class_name d) of
           Some n \<Rightarrow> dict_set cats1 (class_name d) (n + 1)
         | None \<Rightarrow> cats1)"

fun count_all :: "nat dict \<Rightarrow> detection list \<Rightarrow> nat dict" where
  "count_all cats [] = cats"
| "count_all cats (d # ds) = count_all (count_detection cats d) ds"

definition get_statistics :: "detection list \<Rightarrow> statistics" where
  "get_statistics detections =
     \<lparr>total_items = length detections, categories = count_all [] detections\<rparr>"

section \<open>Strings\<close>

text \<open>
  \<^verbatim>\<open>str.lower()\<close> on the ASCII letters, and \<^verbatim>\<open>str(n)\<close> for integers. Strings are
  lists of 8-bit characters; code points beyond ASCII are outside this model.
\<close>

definition lower_char :: "char \<Rightarrow> char" where
  "lower_char c =
     (let n = (of_char c :: nat) in if 65 \<le> n \<and> n \<le> 90 then char_of (n + 32) else c)"

definition lower :: "string \<Rightarrow> string" where
  "lower s = map lower_char s"

fun str_nat :: "nat \<Rightarrow> string" where
  "str_nat n =
     (if n < 10 then [char_of (48 + n)] else str_nat (n div 10) @ [char_of (48 + n mod 10)])"

declare str_nat.simps [simp del]

definition str_int :: "int \<Rightarrow> string" where
  "str_int i = (if i < 0 then CHR ''-'' # str_nat (nat (- i)) else str_nat (nat i))"

section \<open>Rasters, the array heap and the file system\<close>

text \<open>
  A raster is a numpy array of shape (height, width, 3): its shape and its buffer in
  row-major order. Arrays are objects, and OpenCV's drawing functions write into the array
  they are given, so arrays live in a heap of addresses; \<open>next_addr\<close> is the first address
  not yet allocated. The world also holds the files on disk and a trace of the calls to the
  file system, to the model and to the drawing functions, in the order they are made.
\<close>

type_synonym bgr = "nat \<times> nat \<times> nat"
type_synonym point = "int \<times> int"
type_synonym bytes = "nat list"

record image =
  height :: nat
  width :: nat
  pixels :: "bgr list"

datatype event =
    EvSave string
  | EvExists string
  | EvRemove string
  | EvImread string
  | EvImwrite string
  | EvPredict
  | EvRectangle nat point point int
  | EvPutText nat string point

record world =
  files :: "string \<rightharpoonup> bytes"
  heap :: "nat \<Rightarrow> image"
  next_addr :: nat
  trace :: "event list"

text \<open>
  A computation that reads and changes the world and either returns or raises. The world
  it leaves is kept in both cases: what was written before an exception stays written.
\<close>

type_synonym 'a m = "world \<Rightarrow> (exn + 'a) \<times> world"

definition ret :: "'a \<Rightarrow> 'a m" where
  "ret x = (\<lambda>w. (Inr x, w))"

definition raise :: "exn \<Rightarrow> 'a m" where
  "raise e = (\<lambda>w. (Inl e, w))"

definition lift :: "exn + 'a \<Rightarrow> 'a m" where
  "lift r = (\<lambda>w. (r, w))"

definition then_do :: "'a m \<Rightarrow> ('a \<Rightarrow> 'b m) \<Rightarrow> 'b m" where
  "then_do f g = (\<lambda>w. case f w of (Inl e, w') \<Rightarrow> (Inl e, w') | (Inr x, w') \<Rightarrow> g x w')"

definition record_event :: "event \<Rightarrow> world \<Rightarrow> world" where
  "record_event ev w = w\<lparr>trace := trace w @ [ev]\<rparr>"

section \<open>External collaborators\<close>

text \<open>
  One raw box of the inference library: float corner coordinates, class id, confidence.
\<close>

record raw_box =
  box_x1 :: pyfloat
  box_y1 :: pyfloat
  box_x2 :: pyfloat
  box_y2 :: pyfloat
  box_cls :: int
  box_conf :: pyfloat

text \<open>
  The detector handle: the loaded model (\<^verbatim>\<open>self.model.predict\<close>, which returns a list of
  results, each with its boxes, or raises) and its table of class names
  (\<^verbatim>\<open>self.model.names\<close>). Prediction reads the raster it is given and writes nothing.
\<close>

record detector =
  model_predict :: "image \<Rightarrow> pyfloat \<Rightarrow> exn + raw_box list list"
  class_names :: "int \<rightharpoonup> string"

text \<open>
  Everything else the code calls and does not define: OpenCV, base64, werkzeug, the clock,
  float parsing and formatting, the operating system. The rasterisers give the pixels a
  call covers (or raise); the write into the array is modelled below. A call that writes a
  file (\<open>save_result\<close>, \<open>imwrite_result\<close>) gives the contents it leaves on disk, if any,
  and the exception it raises, if any. \<open>set_order\<close> is the order in which the running
  interpreter iterates over the set \<^verbatim>\<open>ALLOWED_EXTENSIONS\<close>. Every field is a parameter, so
  that a theorem about a handler holds whatever the libraries do.
\<close>

record env =
  rectangle_pts :: "point \<Rightarrow> point \<Rightarrow> int \<Rightarrow> exn + point list"
  putText_pts :: "string \<Rightarrow> point \<Rightarrow> exn + point list"
  getTextSize :: "string \<Rightarrow> int \<times> int"
  format_2f :: "pyfloat \<Rightarrow> string"
  round4 :: "pyfloat \<Rightarrow> pyfloat"
  read_image :: "bytes \<Rightarrow> image option"
  imdecode :: "bytes \<Rightarrow> exn + image option"
  imencode_jpg :: "image \<Rightarrow> exn + bytes"
  imwrite_result :: "string \<Rightarrow> image \<Rightarrow> bytes option \<times> exn option"
  b64decode :: "string \<Rightarrow> exn + bytes"
  b64encode :: "bytes \<Rightarrow> string"
  secure_filename :: "string \<Rightarrow> string"
  time_ms :: nat
  save_result :: "string \<Rightarrow> bytes \<Rightarrow> bytes option \<times> exn option"
  remove_error :: "string \<Rightarrow> exn option"
  parse_float :: "string \<Rightarrow> exn + pyfloat"
  set_order :: "string list"

section \<open>The annotator (\<^verbatim>\<open>WasteDetector.detect_image\<close>, \<^verbatim>\<open>WasteDetector.detect_frame\<close>)\<close>

definition colors :: "bgr dict" where
  "colors =
     [(''plastic'', (0, 255, 255)),
      (''paper'', (255, 255, 255)),
      (''metal'', (192, 192, 192)),
      (''glass'', (255, 0, 255)),
      (''organic'', (0, 255, 0)),
      (''cardboard'', (19, 69, 139))]"

definition default_color :: bgr where
  "default_color = (0, 255, 0)"

text \<open>
  Writing one pixel into an array: outside the raster nothing is written (OpenCV clips),
  and the shape is not part of what a write can reach.
\<close>

definition set_pixel :: "image \<Rightarrow> point \<Rightarrow> bgr \<Rightarrow> image" where
  "set_pixel img p c =
     (case p of (x, y) \<Rightarrow>
        if 0 \<le> x \<and> x < int (width img) \<and> 0 \<le> y \<and> y < int (height img)
        then img\<lparr>pixels := (pixels img)[nat y * width img + nat x := c]\<rparr>
        else img)"

definition paint :: "nat \<Rightarrow> point list \<Rightarrow> bgr \<Rightarrow> world \<Rightarrow> world" where
  "paint a pts c w =
     w\<lparr>heap := (heap w)(a := fold (\<lambda>p img. set_pixel img p c) pts (heap w a))\<rparr>"

definition cv2_rectangle :: "env \<Rightarrow> nat \<Rightarrow> point \<Rightarrow> point \<Rightarrow> bgr \<Rightarrow> int \<Rightarrow> unit m" where
  "cv2_rectangle E a pt1 pt2 color thickness =
     (\<lambda>w. let w1 = record_event (EvRectangle a pt1 pt2 thickness) w
          in case rectangle_pts E pt1 pt2 thickness of
               Inl e \<Rightarrow> (Inl e, w1)
             | Inr pts \<Rightarrow> (Inr (), paint a pts color w1))"

definition cv2_putText :: "env \<Rightarrow> nat \<Rightarrow> string \<Rightarrow> point \<Rightarrow> bgr \<Rightarrow> unit m" where
  "cv2_putText E a text org color =
     (\<lambda>w. let w1 = record_event (EvPutText a text org) w
          in case putText_pts E text org of
               Inl e \<Rightarrow> (Inl e, w1)
             | Inr pts \<Rightarrow> (Inr (), paint a pts color w1))"

text \<open>\<^verbatim>\<open>array.copy()\<close>: a new array with the same shape and contents.\<close>

definition array_copy :: "nat \<Rightarrow> nat m" where
  "array_copy a =
     (\<lambda>w. (Inr (next_addr w),
            w\<lparr>heap := (heap w)(next_addr w := heap w a), next_addr := Suc (next_addr w)\<rparr>))"

definition new_array :: "image \<Rightarrow> nat m" where
  "new_array img =
     (\<lambda>w. (Inr (next_addr w),
            w\<lparr>heap := (heap w)(next_addr w := img), next_addr := Suc (next_addr w)\<rparr>))"

definition predict :: "detector \<Rightarrow> nat \<Rightarrow> pyfloat \<Rightarrow> raw_box list list m" where
  "predict d a conf_threshold =
     (\<lambda>w. (model_predict d (heap w a) conf_threshold, record_event EvPredict w))"

text \<open>
  The two corners handed to \<^verbatim>\<open>cv2.rectangle\<close> for the label background:
  \<^verbatim>\<open>(x1, y1 - label_height - 10)\<close> and \<^verbatim>\<open>(x1 + label_width + 10, y1)\<close>.
\<close>

definition label_background :: "int \<Rightarrow> int \<Rightarrow> int \<Rightarrow> int \<Rightarrow> point \<times> point" where
  "label_background x1 y1 label_width label_height =
     ((x1, y1 - label_height - 10), (x1 + label_width + 10, y1))"

text \<open>
  The body of the inner loop, the same text in \<^verbatim>\<open>detect_image\<close> (lines 90 to 141) and in
  \<^verbatim>\<open>detect_frame\<close> (lines 174 to 225): convert the box, look the class up, draw the box,
  the label background and the label on the array \<open>a\<close>, and give the detection to append.
\<close>

definition draw_box :: "env \<Rightarrow> detector \<Rightarrow> nat \<Rightarrow> raw_box \<Rightarrow> detection m" where
  "draw_box E d a box =
     then_do (lift (py_int (box_x1 box))) (\<lambda>x1.
     then_do (lift (py_int (box_y1 box))) (\<lambda>y1.
     then_do (lift (py_int (box_x2 box))) (\<lambda>x2.
     then_do (lift (py_int (box_y2 box))) (\<lambda>y2.
     then_do (lift (case class_names d (box_cls box) of
                      None \<Rightarrow> Inl (Exn ''KeyError'' (str_int (box_cls box)))
                    | Some n \<Rightarrow> Inr n)) (\<lambda>name.
     let color = (case dict_get colors (lower name) of None \<Rightarrow> default_color | Some c \<Rightarrow> c);
         label = name @ '': '' @ format_2f E (box_conf box);
         label_width = fst (getTextSize E label);
         label_height = snd (getTextSize E label);
         bg = label_background x1 y1 label_width label_height
     in
     then_do (cv2_rectangle E a (x1, y1) (x2, y2) color 2) (\<lambda>_.
     then_do (cv2_rectangle E a (fst bg) (snd bg) color (- 1)) (\<lambda>_.
     then_do (cv2_putText E a label (x1 + 5, y1 - 5) (0, 0, 0)) (\<lambda>_.
     ret \<lparr>class_name = name, confidence = round4 E (box_conf box),
          bbox = [x1, y1, x2, y2]\<rparr>))))))))"

fun draw_boxes :: "env \<Rightarrow> detector \<Rightarrow> nat \<Rightarrow> raw_box list \<Rightarrow> detection list \<Rightarrow> detection list m" where
  "draw_boxes E d a [] detections = ret detections"
| "draw_boxes E d a (box # boxes) detections =
     (\<lambda>w. case draw_box E d a box w of
            (Inl e, w') \<Rightarrow> (Inl e, w')
          | (Inr det, w') \<Rightarrow> draw_boxes E d a boxes (detections @ [det]) w')"

fun draw_results :: "env \<Rightarrow> detector \<Rightarrow> nat \<Rightarrow> raw_box list list \<Rightarrow> detection list \<Rightarrow> detection list m" where
  "draw_results E d a [] detections = ret detections"
| "draw_results E d a (boxes # results) detections =
     (\<lambda>w. case draw_boxes E d a boxes detections w of
            (Inl e, w') \<Rightarrow> (Inl e, w')
          | (Inr detections', w') \<Rightarrow> draw_results E d a results detections' w')"

text \<open>
  \<^verbatim>\<open>detect_frame(frame, conf_threshold)\<close>: \<open>frame\<close> is the address of the caller's array;
  the result is the address of the annotated array and the detections.
\<close>

definition detect_frame :: "env \<Rightarrow> detector \<Rightarrow> nat \<Rightarrow> pyfloat \<Rightarrow> (nat \<times> detection list) m" where
  "detect_frame E d frame conf_threshold =
     then_do (predict d frame conf_threshold) (\<lambda>results.
     then_do (array_copy frame) (\<lambda>annotated_frame.
     then_do (draw_results E d annotated_frame results []) (\<lambda>detections.
     ret (annotated_frame, detections))))"

text \<open>
  \<^verbatim>\<open>cv2.imread(path)\<close>: a new array decoded from the file, or \<^verbatim>\<open>None\<close> when the file is
  missing or is no image.
\<close>

definition cv2_imread :: "env \<Rightarrow> string \<Rightarrow> nat option m" where
  "cv2_imread E path =
     (\<lambda>w. let w1 = record_event (EvImread path) w
          in case files w1 path of
               None \<Rightarrow> (Inr None, w1)
             | Some content \<Rightarrow>
                 (case read_image E content of
                    None \<Rightarrow> (Inr None, w1)
                  | Some img \<Rightarrow> then_do (new_array img) (\<lambda>a. ret (Some a)) w1))"

definition detect_image :: "env \<Rightarrow> detector \<Rightarrow> string \<Rightarrow> pyfloat \<Rightarrow> (nat \<times> detection list) m" where
  "detect_image E d image_path conf_threshold =
     then_do (cv2_imread E image_path) (\<lambda>r.
     case r of
       None \<Rightarrow> raise (Exn ''ValueError'' (''Could not read image at '' @ image_path))
     | Some img \<Rightarrow>
         then_do (predict d img conf_threshold) (\<lambda>results.
         then_do (array_copy img) (\<lambda>annotated_image.
         then_do (draw_results E d annotated_image results []) (\<lambda>detections.
         ret (annotated_image, detections)))))"

section \<open>The request handlers (\<^verbatim>\<open>app.py\<close>)\<close>

text \<open>
  \<^verbatim>\<open>s.split(c)\<close>, \<^verbatim>\<open>s.rsplit(c, 1)\<close> and \<^verbatim>\<open>sep.join(xs)\<close>.
\<close>

fun split_on :: "char \<Rightarrow> string \<Rightarrow> string list" where
  "split_on c [] = [[]]"
| "split_on c (x # xs) =
     (if x = c then [] # split_on c xs
      else (case split_on c xs of
              [] \<Rightarrow> [[x]]
            | piece # pieces \<Rightarrow> (x # piece) # pieces))"

definition rsplit1 :: "char \<Rightarrow> string \<Rightarrow> string list" where
  "rsplit1 c s =
     (if c \<in> set s
      then [rev (tl (dropWhile (\<lambda>x. x \<noteq> c) (rev s))), rev (takeWhile (\<lambda>x. x \<noteq> c) (rev s))]
      else [s])"

fun join :: "string \<Rightarrow> string list \<Rightarrow> string" where
  "join sep [] = []"
| "join sep [x] = x"
| "join sep (x # y # ys) = x @ sep @ join sep (y # ys)"

definition upload_folder :: string where
  "upload_folder = ''static/uploads''"

definition ALLOWED_EXTENSIONS :: "string set" where
  "ALLOWED_EXTENSIONS = {''png'', ''jpg'', ''jpeg'', ''bmp'', ''webp''}"

text \<open>
  \<^verbatim>\<open>'.' in filename and filename.rsplit('.', 1)[1].lower() in ALLOWED_EXTENSIONS\<close>. The
  index 1 is read only when the name has a dot, and then the list has two elements
  (lemma \<open>rsplit1_length\<close>).
\<close>

definition allowed_file :: "string \<Rightarrow> bool" where
  "allowed_file filename \<longleftrightarrow>
     CHR ''.'' \<in> set filename \<and> lower (rsplit1 CHR ''.'' filename ! 1) \<in> ALLOWED_EXTENSIONS"

text \<open>
  The JSON body of a response: the error object \<^verbatim>\<open>{'success': False, 'error': msg}\<close>, or
  the success object of \<^verbatim>\<open>/detect\<close> (original image, detected image, detections,
  statistics, threshold) or of \<^verbatim>\<open>/detect_frame\<close> (annotated image, detections, statistics,
  threshold). A response is a status code and a body.
\<close>

datatype body =
    Failure string
  | DetectResult string string "detection list" statistics pyfloat
  | FrameResult string "detection list" statistics pyfloat

type_synonym response = "nat \<times> body"

text \<open>
  A request to \<^verbatim>\<open>/detect\<close>: the part \<^verbatim>\<open>request.files['file']\<close> (its filename and its
  bytes) when there is one, and the form field \<^verbatim>\<open>confidence\<close> when there is one.
\<close>

record upload_request =
  file_field :: "(string \<times> bytes) option"
  form_confidence :: "string option"

text \<open>
  A request to \<^verbatim>\<open>/detect_frame\<close>: \<^verbatim>\<open>request.json\<close> raises, or gives \<^verbatim>\<open>None\<close>, or gives an
  object with an optional string under \<^verbatim>\<open>image\<close> and an optional number or string under
  \<^verbatim>\<open>confidence\<close>. Bodies that are not objects, and values of other JSON types under these
  two keys, are outside this model.
\<close>

datatype conf_value = ConfNumber pyfloat | ConfString string

record frame_data =
  image_field :: "string option"
  confidence_field :: "conf_value option"

record frame_request =
  json :: "exn + frame_data option"

definition model_not_loaded :: response where
  "model_not_loaded =
     (500, Failure ''Model not loaded. Please check if models/best.pt exists.'')"

subsection \<open>File system calls\<close>

definition file_save :: "env \<Rightarrow> string \<Rightarrow> bytes \<Rightarrow> unit m" where
  "file_save E path content =
     (\<lambda>w. let w1 = record_event (EvSave path) w;
              w2 = (case fst (save_result E path content) of
                      None \<Rightarrow> w1
                    | Some written \<Rightarrow> w1\<lparr>files := (files w1)(path \<mapsto> written)\<rparr>)
          in case snd (save_result E path content) of
               Some e \<Rightarrow> (Inl e, w2)
             | None \<Rightarrow> (Inr (), w2))"

definition cv2_imwrite :: "env \<Rightarrow> string \<Rightarrow> nat \<Rightarrow> unit m" where
  "cv2_imwrite E path a =
     (\<lambda>w. let w1 = record_event (EvImwrite path) w;
              w2 = (case fst (imwrite_result E path (heap w a)) of
                      None \<Rightarrow> w1
                    | Some written \<Rightarrow> w1\<lparr>files := (files w1)(path \<mapsto> written)\<rparr>)
          in case snd (imwrite_result E path (heap w a)) of
               Some e \<Rightarrow> (Inl e, w2)
             | None \<Rightarrow> (Inr (), w2))"

definition os_path_exists :: "string \<Rightarrow> bool m" where
  "os_path_exists path = (\<lambda>w. (Inr (files w path \<noteq> None), record_event (EvExists path) w))"

definition os_remove :: "env \<Rightarrow> string \<Rightarrow> unit m" where
  "os_remove E path =
     (\<lambda>w. let w1 = record_event (EvRemove path) w
          in if files w path = None
             then (Inl (Exn ''FileNotFoundError'' (''No such file or directory: '' @ path)), w1)
             else (case remove_error E path of
                     Some e \<Rightarrow> (Inl e, w1)
                   | None \<Rightarrow> (Inr (), w1\<lparr>files := (files w1)(path := None)\<rparr>)))"

subsection \<open>\<^verbatim>\<open>/detect\<close>\<close>

text \<open>
  Reading a local variable of the handler: one that was never assigned raises.
\<close>

definition local_var :: "string \<Rightarrow> string option \<Rightarrow> string m" where
  "local_var name v =
     (case v of
        None \<Rightarrow> raise (Exn ''UnboundLocalError''
                         (''local variable '' @ name @ '' referenced before assignment''))
      | Some x \<Rightarrow> ret x)"

definition remove_if_exists :: "env \<Rightarrow> string \<Rightarrow> string option \<Rightarrow> unit m" where
  "remove_if_exists E name v =
     then_do (local_var name v) (\<lambda>path.
     then_do (os_path_exists path) (\<lambda>found.
     if found then os_remove E path else ret ()))"

text \<open>
  The inner \<^verbatim>\<open>try\<close> of the handler's \<^verbatim>\<open>except\<close> block (lines 144 to 150): both removals
  in one \<^verbatim>\<open>try\<close>, and \<^verbatim>\<open>except: pass\<close> drops whatever was raised.
\<close>

definition cleanup :: "env \<Rightarrow> string option \<Rightarrow> string option \<Rightarrow> world \<Rightarrow> world" where
  "cleanup E filepath output_path w =
     snd (then_do (remove_if_exists E ''filepath'' filepath)
            (\<lambda>_. remove_if_exists E ''output_path'' output_path) w)"

text \<open>
  The \<^verbatim>\<open>try\<close> block of the handler (lines 109 to 140). \<open>upload_filename\<close> is the name
  \<^verbatim>\<open>f"{timestamp}_{secure_filename(file.filename)}"\<close> and \<open>in_upload_folder\<close> is
  \<^verbatim>\<open>os.path.join(app.config['UPLOAD_FOLDER'], ...)\<close>; the local \<open>filepath\<close> is assigned
  before anything can raise. Beside the outcome, \<open>detect_body\<close> gives the value of the local
  \<open>output_path\<close> at the end: unassigned as long as \<^verbatim>\<open>detect_image\<close> has not returned.
\<close>

definition upload_filename :: "env \<Rightarrow> string \<Rightarrow> string" where
  "upload_filename E name = str_nat (time_ms E) @ ''_'' @ secure_filename E name"

definition in_upload_folder :: "string \<Rightarrow> string" where
  "in_upload_folder filename = upload_folder @ ''/'' @ filename"

definition detect_body ::
  "env \<Rightarrow> detector \<Rightarrow> string \<Rightarrow> bytes \<Rightarrow> string option \<Rightarrow> world
     \<Rightarrow> (exn + response) \<times> string option \<times> world" where
  "detect_body E d filename content conf_field w =
     (case file_save E (in_upload_folder filename) content w of
        (Inl e, w1) \<Rightarrow> (Inl e, None, w1)
      | (Inr _, w1) \<Rightarrow>
          (case (case conf_field of None \<Rightarrow> Inr (Fin (1 / 4)) | Some s \<Rightarrow> parse_float E s) of
             Inl e \<Rightarrow> (Inl e, None, w1)
           | Inr conf_threshold \<Rightarrow>
               (case detect_image E d (in_upload_folder filename) conf_threshold w1 of
                  (Inl e, w2) \<Rightarrow> (Inl e, None, w2)
                | (Inr (annotated_image, detections), w2) \<Rightarrow>
                    (case cv2_imwrite E (in_upload_folder (''detected_'' @ filename))
                            annotated_image w2 of
                       (Inl e, w3) \<Rightarrow>
                         (Inl e, Some (in_upload_folder (''detected_'' @ filename)), w3)
                     | (Inr _, w3) \<Rightarrow>
                         (Inr (200, DetectResult
                                      (''/'' @ upload_folder @ ''/'' @ filename)
                                      (''/'' @ upload_folder @ ''/'' @ ''detected_'' @ filename)
                                      detections (get_statistics detections) conf_threshold),
                          Some (in_upload_folder (''detected_'' @ filename)), w3)))))"

definition detect :: "env \<Rightarrow> detector option \<Rightarrow> upload_request \<Rightarrow> world \<Rightarrow> response \<times> world" where
  "detect E detector req w =
     (case detector of
        None \<Rightarrow> (model_not_loaded, w)
      | Some d \<Rightarrow>
          (case file_field req of
             None \<Rightarrow> ((400, Failure ''No file uploaded''), w)
           | Some (name, content) \<Rightarrow>
               if name = [] then ((400, Failure ''No file selected''), w)
               else if \<not> allowed_file name
               then ((400, Failure (''Invalid file type. Allowed types: ''
                                     @ join '', '' (set_order E))), w)
               else
                 (case detect_body E d (upload_filename E name) content (form_confidence req) w of
                    (Inr resp, _, w') \<Rightarrow> (resp, w')
                  | (Inl e, output_path, w') \<Rightarrow>
                      ((500, Failure (''Detection failed: '' @ str e)),
                       cleanup E (Some (in_upload_folder (upload_filename E name)))
                         output_path w'))))"

subsection \<open>\<^verbatim>\<open>/detect_frame\<close>\<close>

text \<open>
  Lines 184 to 186: \<^verbatim>\<open>if ',' in image_data: image_data = image_data.split(',')[1]\<close>. With
  a comma in the string the list has at least two elements (lemma \<open>split_on_length\<close>).
\<close>

definition image_payload :: "string \<Rightarrow> string" where
  "image_payload image_data =
     (if CHR '','' \<in> set image_data then split_on CHR '','' image_data ! 1 else image_data)"

definition float_of_conf :: "env \<Rightarrow> conf_value option \<Rightarrow> exn + pyfloat" where
  "float_of_conf E v =
     (case v of
        None \<Rightarrow> Inr (Fin (1 / 4))
      | Some (ConfNumber x) \<Rightarrow> Inr x
      | Some (ConfString s) \<Rightarrow> parse_float E s)"

text \<open>The \<^verbatim>\<open>try\<close> block of the handler (lines 174 to 221).\<close>

definition detect_frame_body :: "env \<Rightarrow> detector \<Rightarrow> frame_request \<Rightarrow> response m" where
  "detect_frame_body E d req =
     then_do (lift (json req)) (\<lambda>data.
     case (case data of
             None \<Rightarrow> None
           | Some obj \<Rightarrow> (case image_field obj of None \<Rightarrow> None | Some s \<Rightarrow> Some (obj, s))) of
       None \<Rightarrow> ret (400, Failure ''No image data provided'')
     | Some (obj, image_str) \<Rightarrow>
         then_do (lift (float_of_conf E (confidence_field obj))) (\<lambda>conf_threshold.
         then_do (lift (b64decode E (image_payload image_str))) (\<lambda>image_bytes.
         then_do (lift (imdecode E image_bytes)) (\<lambda>decoded.
         case decoded of
           None \<Rightarrow> ret (400, Failure ''Failed to decode image'')
         | Some img \<Rightarrow>
             then_do (new_array img) (\<lambda>frame.
             then_do (detect_frame E d frame conf_threshold) (\<lambda>r.
             then_do (\<lambda>w. (imencode_jpg E (heap w (fst r)), w)) (\<lambda>buffer.
             ret (200, FrameResult (''data:image/jpeg;base64,'' @ b64encode E buffer)
                         (snd r) (get_statistics (snd r)) conf_threshold))))))))"

definition detect_frame_route ::
  "env \<Rightarrow> detector option \<Rightarrow> frame_request \<Rightarrow> world \<Rightarrow> response \<times> world" where
  "detect_frame_route E detector req w =
     (case detector of
        None \<Rightarrow> (model_not_loaded, w)
      | Some d \<Rightarrow>
          (case detect_frame_body E d req w of
             (Inr resp, w') \<Rightarrow> (resp, w')
           | (Inl e, w') \<Rightarrow> ((500, Failure (''Frame detection failed: '' @ str e)), w')))"

section \<open>Python's base64 decoder\<close>

text \<open>
  \<^verbatim>\<open>base64.b64decode(s)\<close> with its default \<^verbatim>\<open>validate=False\<close>, after CPython's
  \<^verbatim>\<open>binascii.a2b_base64\<close>: a string with a non-ASCII character is refused; characters
  outside the alphabet are skipped; a padding character ends the input once it completes a
  group; at the end of the input an incomplete group of four raises \<^verbatim>\<open>binascii.Error\<close>.
  The handler is modelled against any decoder (the field \<open>b64decode\<close>); this one is used to
  run it on concrete requests.
\<close>

definition b64_value :: "char \<Rightarrow> nat option" where
  "b64_value c =
     (let n = (of_char c :: nat)
      in if 65 \<le> n \<and> n \<le> 90 then Some (n - 65)
         else if 97 \<le> n \<and> n \<le> 122 then Some (n - 71)
         else if 48 \<le> n \<and> n \<le> 57 then Some (n + 4)
         else if n = 43 then Some 62
         else if n = 47 then Some 63
         else None)"

fun a2b_base64 :: "string \<Rightarrow> nat \<Rightarrow> nat \<Rightarrow> nat \<Rightarrow> bytes \<Rightarrow> exn + bytes" where
  "a2b_base64 [] quad_pos leftchar pads out =
     (if quad_pos = 0 then Inr out
      else if quad_pos = 1
      then Inl (Exn ''binascii.Error''
                  (''Invalid base64-encoded string: number of data characters (''
                   @ str_nat (length out div 3 * 4 + 1)
                   @ '') cannot be 1 more than a multiple of 4''))
      else Inl (Exn ''binascii.Error'' ''Incorrect padding''))"
| "a2b_base64 (c # cs) quad_pos leftchar pads out =
     (if c = CHR ''=''
      then (if 2 \<le> quad_pos \<and> 4 \<le> quad_pos + (pads + 1) then Inr out
            else a2b_base64 cs quad_pos leftchar (if 2 \<le> quad_pos then pads + 1 else pads) out)
      else (case b64_value c of
              None \<Rightarrow> a2b_base64 cs quad_pos leftchar pads out
            | Some v \<Rightarrow>
                if quad_pos = 0 then a2b_base64 cs 1 v 0 out
                else if quad_pos = 1
                then a2b_base64 cs 2 (v mod 16) 0 (out @ [(leftchar * 4 + v div 16) mod 256])
                else if quad_pos = 2
                then a2b_base64 cs 3 (v mod 4) 0 (out @ [(leftchar * 16 + v div 4) mod 256])
                else a2b_base64 cs 0 0 0 (out @ [(leftchar * 64 + v) mod 256])))"

definition py_b64decode :: "string \<Rightarrow> exn + bytes" where
  "py_b64decode s =
     (if list_ex (\<lambda>c. 128 \<le> (of_char c :: nat)) s
      then Inl (Exn ''ValueError'' ''string argument should contain only ASCII characters'')
      else a2b_base64 s 0 0 0 [])"

section \<open>A concrete instance\<close>

text \<open>
  One instance of the collaborators, of the detector and of the world, on which the model
  is run: a model that reports one box of class \<^verbatim>\<open>plastic\<close> in the top left corner, a
  rasteriser that touches the two corners it is given, labels 13 pixels high, a file system
  on which every call succeeds, and one array already allocated at address 0.
\<close>

definition sample_image :: image where
  "sample_image = \<lparr>height = 2, width = 2, pixels = [(9, 9, 9), (9, 9, 9), (9, 9, 9), (9, 9, 9)]\<rparr>"

definition sample_env :: env where
  "sample_env =
     \<lparr>rectangle_pts = (\<lambda>pt1 pt2 thickness. Inr [pt1, pt2]),
      putText_pts = (\<lambda>text org. Inr [org]),
      getTextSize = (\<lambda>text. (11 * int (length text), 13)),
      format_2f = (\<lambda>x. ''0.90''),
      round4 = (\<lambda>x. x),
      read_image = (\<lambda>content. if content = [] then None else Some sample_image),
      imdecode = (\<lambda>content. if content = []
                              then Inl (Exn ''cv2.error'' ''imdecode: empty buffer'')
                              else Inr (if hd content = 255 then Some sample_image else None)),
      imencode_jpg = (\<lambda>img. Inr [255, 216, 255]),
      imwrite_result = (\<lambda>path img. (Some [255, 216, 255], None)),
      b64decode = py_b64decode,
      b64encode = (\<lambda>content. ''/9j/''),
      secure_filename = (\<lambda>name. name),
      time_ms = 1700000000000,
      save_result = (\<lambda>path content. (Some content, None)),
      remove_error = (\<lambda>path. None),
      parse_float = (\<lambda>s. if s = ''0.5'' then Inr (Fin (1 / 2))
                           else Inl (Exn ''ValueError''
                                       (''could not convert string to float: '' @ [CHR 0x27]
                                        @ s @ [CHR 0x27]))),
      set_order = [''png'', ''jpg'', ''jpeg'', ''bmp'', ''webp'']\<rparr>"

definition sample_box :: raw_box where
  "sample_box =
     \<lparr>box_x1 = Fin 0, box_y1 = Fin 0, box_x2 = Fin 1, box_y2 = Fin 1,
      box_cls = 0, box_conf = Fin (9 / 10)\<rparr>"

definition sample_detector :: detector where
  "sample_detector =
     \<lparr>model_predict = (\<lambda>img conf_threshold. Inr [[sample_box]]),
      class_names = [0 \<mapsto> ''plastic'']\<rparr>"

definition sample_world :: world where
  "sample_world =
     \<lparr>files = Map.empty, heap = (\<lambda>a. sample_image), next_addr = 1, trace = []\<rparr>"


definition late_failure_env :: env where
  "late_failure_env =
     sample_env
       \<lparr>imwrite_result :=
          (\<lambda>path img. (None, Some (Exn ''cv2.error'' ''could not write image'')))\<rparr>"

section \<open>What the annotator owes each box\<close>

text \<open>
  The contract of the annotator (section 4.1 of the specification) for one box, stated
  without heap and without trace: the detection to report, the display colour (the colour
  table under the lower-cased class name, or the default), the label
  \<^verbatim>\<open><category>: <confidence to 2 decimals>\<close>, the two corners of the box, the two corners
  of the label background as lines 117 to 123 compute them, and the three strokes to
  composite in this order: the outline of the box in the display colour, the filled label
  background in the display colour, the label text in black. A stroke is the pixels it
  covers and its colour. \<open>annotation_calls\<close> are the three drawing calls this amounts to on
  the array at \<open>a\<close>.
\<close>

record annotation =
  ann_detection :: detection
  ann_color :: bgr
  ann_label :: string
  ann_corner1 :: point
  ann_corner2 :: point
  ann_background :: "point \<times> point"
  ann_strokes :: "(point list \<times> bgr) list"

definition annotation_of :: "env \<Rightarrow> detector \<Rightarrow> raw_box \<Rightarrow> exn + annotation" where
  "annotation_of E d box =
     (case py_int (box_x1 box) of Inl e \<Rightarrow> Inl e | Inr x1 \<Rightarrow>
     (case py_int (box_y1 box) of Inl e \<Rightarrow> Inl e | Inr y1 \<Rightarrow>
     (case py_int (box_x2 box) of Inl e \<Rightarrow> Inl e | Inr x2 \<Rightarrow>
     (case py_int (box_y2 box) of Inl e \<Rightarrow> Inl e | Inr y2 \<Rightarrow>
     (case class_names d (box_cls box) of
        None \<Rightarrow> Inl (Exn ''KeyError'' (str_int (box_cls box)))
      | Some name \<Rightarrow>
     (let color = (case dict_get colors (lower name) of None \<Rightarrow> default_color | Some c \<Rightarrow> c);
          label = name @ '': '' @ format_2f E (box_conf box);
          bg = label_background x1 y1 (fst (getTextSize E label)) (snd (getTextSize E label))
      in
     (case rectangle_pts E (x1, y1) (x2, y2) 2 of Inl e \<Rightarrow> Inl e | Inr outline \<Rightarrow>
     (case rectangle_pts E (fst bg) (snd bg) (- 1) of Inl e \<Rightarrow> Inl e | Inr filled \<Rightarrow>
     (case putText_pts E label (x1 + 5, y1 - 5) of Inl e \<Rightarrow> Inl e | Inr glyphs \<Rightarrow>
        Inr \<lparr>ann_detection =
               \<lparr>class_name = name, confidence = round4 E (box_conf box),
                bbox = [x1, y1, x2, y2]\<rparr>,
             ann_color = color, ann_label = label,
             ann_corner1 = (x1, y1), ann_corner2 = (x2, y2), ann_background = bg,
             ann_strokes = [(outline, color), (filled, color), (glyphs, (0, 0, 0))]\<rparr>)))))))))"

text \<open>The annotations of a sequence of boxes, in order; the first box that fails decides.\<close>

fun annotations :: "env \<Rightarrow> detector \<Rightarrow> raw_box list \<Rightarrow> exn + annotation list" where
  "annotations E d [] = Inr []"
| "annotations E d (box # boxes) =
     (case annotation_of E d box of
        Inl e \<Rightarrow> Inl e
      | Inr an \<Rightarrow>
          (case annotations E d boxes of
             Inl e \<Rightarrow> Inl e
           | Inr ans \<Rightarrow> Inr (an # ans)))"

text \<open>Compositing strokes on a raster, one after the other.\<close>

definition render :: "image \<Rightarrow> (point list \<times> bgr) list \<Rightarrow> image" where
  "render img strokes =
     fold (\<lambda>stroke im. fold (\<lambda>p im'. set_pixel im' p (snd stroke)) (fst stroke) im) strokes img"

definition annotation_calls :: "nat \<Rightarrow> annotation \<Rightarrow> event list" where
  "annotation_calls a an =
     [EvRectangle a (ann_corner1 an) (ann_corner2 an) 2,
      EvRectangle a (fst (ann_background an)) (snd (ann_background an)) (- 1),
      EvPutText a (ann_label an) (fst (ann_corner1 an) + 5, snd (ann_corner1 an) - 5)]"

text \<open>
  The world after one annotation has been drawn on the array at \<open>a\<close>: that array with the
  strokes composited, the drawing calls added to the trace, nothing else touched.
\<close>

definition drawn :: "nat \<Rightarrow> annotation \<Rightarrow> world \<Rightarrow> world" where
  "drawn a an w =
     w\<lparr>heap := (heap w)(a := render (heap w a) (ann_strokes an)),
       trace := trace w @ annotation_calls a an\<rparr>"

section \<open>Frame conditions\<close>

text \<open>
  \<open>only_paints a w w'\<close>: from \<open>w\<close> to \<open>w'\<close> no file changed, no array was allocated, every
  array but the one at \<open>a\<close> is as it was, and the array at \<open>a\<close> kept its shape.
  \<open>preserves R f\<close>: whatever \<open>f\<close> returns or raises, the world it leaves is related by \<open>R\<close>
  to the world it started in.
\<close>

definition only_paints :: "nat \<Rightarrow> world \<Rightarrow> world \<Rightarrow> bool" where
  "only_paints a w w' \<longleftrightarrow>
     files w' = files w \<and> next_addr w' = next_addr w
     \<and> (\<forall>b. b \<noteq> a \<longrightarrow> heap w' b = heap w b)
     \<and> height (heap w' a) = height (heap w a)
     \<and> width (heap w' a) = width (heap w a)"

definition preserves :: "(world \<Rightarrow> world \<Rightarrow> bool) \<Rightarrow> 'a m \<Rightarrow> bool" where
  "preserves R f \<longleftrightarrow> (\<forall>w. R w (snd (f w)))"

section \<open>Properties of the statistics\<close>

lemma dict_get_set: "dict_get (dict_set cats k v) k' = (if k' = k then Some v else dict_get cats k')"
  by (induction cats) auto

lemma keys_dict_set:
  "map fst (dict_set cats k v) =
     (if dict_get cats k = None then map fst cats @ [k] else map fst cats)"
  by (induction cats) (auto split: if_splits)

lemma dict_get_None_iff: "dict_get cats k = None \<longleftrightarrow> k \<notin> set (map fst cats)"
  by (induction cats) (auto split: if_splits)

lemma sum_dict_set_new:
  "dict_get cats k = None \<Longrightarrow>
     sum_list (map snd (dict_set cats k v)) = sum_list (map snd cats) + (v::nat)"
  by (induction cats) (auto split: if_splits)

lemma sum_dict_set_old:
  "dict_get cats k = Some n \<Longrightarrow>
     sum_list (map snd (dict_set cats k v)) + n = sum_list (map snd cats) + (v::nat)"
  by (induction cats) (auto split: if_splits)

lemma count_detection_get:
  "dict_get (count_detection cats d) k =
     (if k = class_name d
      then Some (case dict_get cats k of None \<Rightarrow> 1 | Some n \<Rightarrow> n + 1)
      else dict_get cats k)"
  by (cases "dict_get cats (class_name d)") (simp_all add: count_detection_def dict_get_set)

lemma count_detection_sum:
  "sum_list (map snd (count_detection cats d)) = sum_list (map snd cats) + 1"
proof (cases "dict_get cats (class_name d)")
  case None
  have "dict_get (dict_set cats (class_name d) 0) (class_name d) = Some 0"
    by (simp add: dict_get_set)
  from sum_dict_set_old [OF this, of 1] sum_dict_set_new [OF None, of 0]
  show ?thesis using None by (simp add: count_detection_def dict_get_set)
next
  case (Some n)
  from sum_dict_set_old [OF Some, of "n + 1"]
  show ?thesis using Some by (simp add: count_detection_def)
qed

lemma count_detection_distinct:
  "distinct (map fst cats) \<Longrightarrow> distinct (map fst (count_detection cats d))"
proof (cases "dict_get cats (class_name d)")
  case None
  assume "distinct (map fst cats)"
  moreover have "class_name d \<notin> set (map fst cats)"
    using None dict_get_None_iff [of cats "class_name d"] by blast
  ultimately show ?thesis using None
    by (simp add: count_detection_def dict_get_set keys_dict_set)
next
  case (Some n)
  assume "distinct (map fst cats)"
  with Some show ?thesis
    by (simp add: count_detection_def keys_dict_set)
qed

lemma count_all_sum:
  "sum_list (map snd (count_all cats ds)) = sum_list (map snd cats) + length ds"
  by (induction ds arbitrary: cats) (simp_all add: count_detection_sum)

lemma count_all_distinct:
  "distinct (map fst cats) \<Longrightarrow> distinct (map fst (count_all cats ds))"
  by (induction ds arbitrary: cats) (simp_all add: count_detection_distinct)

lemma count_all_get:
  "dict_get (count_all cats ds) k =
     (let n = length (filter (\<lambda>d. class_name d = k) ds)
      in case dict_get cats k of
           None \<Rightarrow> (if n = 0 then None else Some n)
         | Some m \<Rightarrow> Some (m + n))"
  by (induction ds arbitrary: cats)
     (auto simp: count_detection_get Let_def split: option.splits)

text \<open>
  C1. For every list of detections, the empty one included, \<^verbatim>\<open>get_statistics\<close> returns
  a record whose \<open>total_items\<close> is the length of the list and whose per-category counts
  add up to that length. Every category occurs once among the keys, and the count stored
  under a name is the number of detections whose \<^verbatim>\<open>'class'\<close> field is that name (no
  entry when there is none): each detection is counted in the bucket of its own class
  and in no other.
\<close>

theorem get_statistics_counts:
  "total_items (get_statistics D) = length D
   \<and> sum_list (map snd (categories (get_statistics D))) = length D
   \<and> distinct (map fst (categories (get_statistics D)))
   \<and> dict_get (categories (get_statistics D)) c =
       (let n = length (filter (\<lambda>d. class_name d = c) D)
        in if n = 0 then None else Some n)"
  by (simp add: get_statistics_def count_all_sum count_all_distinct count_all_get)

section \<open>The annotator writes into its copy only\<close>

lemma only_paints_refl: "only_paints a w w"
  by (simp add: only_paints_def)

lemma only_paints_trans: "only_paints a w w1 \<Longrightarrow> only_paints a w1 w2 \<Longrightarrow> only_paints a w w2"
  by (simp add: only_paints_def)

lemma preserves_ret: "preserves (only_paints a) (ret x)"
  by (simp add: preserves_def ret_def only_paints_refl)

lemma preserves_raise: "preserves (only_paints a) (raise e)"
  by (simp add: preserves_def raise_def only_paints_refl)

lemma preserves_lift: "preserves (only_paints a) (lift r)"
  by (simp add: preserves_def lift_def only_paints_refl)

lemma preserves_then_do:
  assumes "preserves (only_paints a) f" and "\<And>x. preserves (only_paints a) (g x)"
  shows "preserves (only_paints a) (then_do f g)"
proof -
  have "only_paints a w (snd (then_do f g w))" for w
  proof (cases "f w")
    case (Pair r w1)
    from assms(1) Pair have step: "only_paints a w w1"
      by (auto simp: preserves_def dest: spec [of _ w])
    show ?thesis
    proof (cases r)
      case (Inl e)
      with Pair step show ?thesis by (simp add: then_do_def)
    next
      case (Inr x)
      from assms(2) have "only_paints a w1 (snd (g x w1))"
        by (simp add: preserves_def)
      with step have "only_paints a w (snd (g x w1))"
        by (rule only_paints_trans)
      with Pair Inr show ?thesis by (simp add: then_do_def)
    qed
  qed
  then show ?thesis by (simp add: preserves_def)
qed

lemma set_pixel_shape: "height (set_pixel img p c) = height img \<and> width (set_pixel img p c) = width img"
  by (simp add: set_pixel_def split: prod.splits)

lemma fold_set_pixel_shape:
  "height (fold (\<lambda>p img. set_pixel img p c) pts img) = height img
   \<and> width (fold (\<lambda>p img. set_pixel img p c) pts img) = width img"
  by (induction pts arbitrary: img) (simp_all add: set_pixel_shape)

lemma only_paints_paint: "only_paints a w (paint a pts c w)"
  by (simp add: only_paints_def paint_def fold_set_pixel_shape)

lemma only_paints_record_event: "only_paints a w (record_event ev w)"
  by (simp add: only_paints_def record_event_def)

lemma preserves_cv2_rectangle: "preserves (only_paints a) (cv2_rectangle E a pt1 pt2 c t)"
  unfolding preserves_def
proof
  fix w
  have "only_paints a w (paint a pts c (record_event ev w))" for pts ev
    using only_paints_trans [OF only_paints_record_event only_paints_paint] .
  then show "only_paints a w (snd (cv2_rectangle E a pt1 pt2 c t w))"
    by (simp add: cv2_rectangle_def Let_def only_paints_record_event split: sum.splits)
qed

lemma preserves_cv2_putText: "preserves (only_paints a) (cv2_putText E a text org c)"
  unfolding preserves_def
proof
  fix w
  have "only_paints a w (paint a pts c (record_event ev w))" for pts ev
    using only_paints_trans [OF only_paints_record_event only_paints_paint] .
  then show "only_paints a w (snd (cv2_putText E a text org c w))"
    by (simp add: cv2_putText_def Let_def only_paints_record_event split: sum.splits)
qed

lemma preserves_draw_box: "preserves (only_paints a) (draw_box E d a box)"
  unfolding draw_box_def Let_def
  by (intro preserves_then_do preserves_lift preserves_ret preserves_cv2_rectangle
        preserves_cv2_putText)

lemma draw_boxes_only_paints: "only_paints a w (snd (draw_boxes E d a boxes dets w))"
proof (induction boxes arbitrary: dets w)
  case Nil
  show ?case by (simp add: ret_def only_paints_refl)
next
  case (Cons box boxes)
  have step: "only_paints a w (snd (draw_box E d a box w))"
    using preserves_draw_box [of a E d box] by (simp add: preserves_def)
  show ?case
  proof (cases "draw_box E d a box w")
    case (Pair r w1)
    with step have s1: "only_paints a w w1" by simp
    show ?thesis
    proof (cases r)
      case (Inl e)
      with Pair s1 show ?thesis by simp
    next
      case (Inr det)
      from only_paints_trans [OF s1 Cons.IH [of w1 "dets @ [det]"]] Pair Inr
      show ?thesis by simp
    qed
  qed
qed

lemma draw_results_only_paints: "only_paints a w (snd (draw_results E d a results dets w))"
proof (induction results arbitrary: dets w)
  case Nil
  show ?case by (simp add: ret_def only_paints_refl)
next
  case (Cons boxes results)
  have s1: "only_paints a w (snd (draw_boxes E d a boxes dets w))"
    by (rule draw_boxes_only_paints)
  show ?case
  proof (cases "draw_boxes E d a boxes dets w")
    case (Pair r w1)
    with s1 have s1': "only_paints a w w1" by simp
    show ?thesis
    proof (cases r)
      case (Inl e)
      with Pair s1' show ?thesis by simp
    next
      case (Inr dets')
      from only_paints_trans [OF s1' Cons.IH [of w1 dets']] Pair Inr
      show ?thesis by simp
    qed
  qed
qed


lemma detect_frame_effect:
  assumes "frame < next_addr w"
  shows "files (snd (detect_frame E d frame c w)) = files w
    \<and> (\<forall>b. b < next_addr w \<longrightarrow> heap (snd (detect_frame E d frame c w)) b = heap w b)
    \<and> (\<forall>a dets. fst (detect_frame E d frame c w) = Inr (a, dets) \<longrightarrow>
          a = next_addr w
          \<and> height (heap (snd (detect_frame E d frame c w)) a) = height (heap w frame)
          \<and> width (heap (snd (detect_frame E d frame c w)) a) = width (heap w frame))"
proof (cases "model_predict d (heap w frame) c")
  case (Inl e)
  then show ?thesis
    by (simp add: detect_frame_def then_do_def predict_def record_event_def)
next
  case (Inr results)
  define w1 where "w1 = snd (array_copy frame (record_event EvPredict w))"
  define w2 where "w2 = snd (draw_results E d (next_addr w) results [] w1)"
  have w1: "files w1 = files w" "next_addr w1 = Suc (next_addr w)"
    "heap w1 (next_addr w) = heap w frame" "\<And>b. b < next_addr w \<Longrightarrow> heap w1 b = heap w b"
    by (simp_all add: w1_def array_copy_def record_event_def)
  have op: "only_paints (next_addr w) w1 w2"
    unfolding w2_def by (rule draw_results_only_paints)
  have run: "detect_frame E d frame c w =
      (case fst (draw_results E d (next_addr w) results [] w1) of
         Inl e \<Rightarrow> Inl e | Inr dets \<Rightarrow> Inr (next_addr w, dets), w2)"
    using Inr
    by (simp add: detect_frame_def then_do_def predict_def array_copy_def w1_def w2_def
        record_event_def ret_def split: prod.splits sum.splits)
  from op w1 show ?thesis
    by (auto simp: run only_paints_def split: sum.splits)
qed


lemma detect_image_unfold:
  "detect_image E d path c w =
     (case cv2_imread E path w of
        (Inl e, w1) \<Rightarrow> (Inl e, w1)
      | (Inr None, w1) \<Rightarrow> (Inl (Exn ''ValueError'' (''Could not read image at '' @ path)), w1)
      | (Inr (Some a), w1) \<Rightarrow> detect_frame E d a c w1)"
  by (simp add: detect_image_def detect_frame_def then_do_def raise_def
      split: prod.splits sum.splits option.splits)

lemma cv2_imread_cases:
  "(\<exists>w1. cv2_imread E path w = (Inr None, w1) \<and> files w1 = files w \<and> heap w1 = heap w
          \<and> next_addr w1 = next_addr w)
   \<or> (\<exists>content img w1. cv2_imread E path w = (Inr (Some (next_addr w)), w1)
          \<and> files w path = Some content \<and> read_image E content = Some img
          \<and> files w1 = files w \<and> next_addr w1 = Suc (next_addr w)
          \<and> heap w1 = (heap w)(next_addr w := img))"
  by (simp add: cv2_imread_def Let_def record_event_def then_do_def new_array_def ret_def
      split: option.splits)

lemma detect_image_effect:
  "files (snd (detect_image E d path c w)) = files w
   \<and> (\<forall>b. b < next_addr w \<longrightarrow> heap (snd (detect_image E d path c w)) b = heap w b)
   \<and> (\<forall>a dets. fst (detect_image E d path c w) = Inr (a, dets) \<longrightarrow>
         (\<exists>content img. files w path = Some content \<and> read_image E content = Some img
            \<and> heap (snd (detect_image E d path c w)) (next_addr w) = img
            \<and> a = Suc (next_addr w)
            \<and> height (heap (snd (detect_image E d path c w)) a) = height img
            \<and> width (heap (snd (detect_image E d path c w)) a) = width img))"
  using cv2_imread_cases [of E path w]
proof (elim disjE exE conjE)
  fix w1
  assume "cv2_imread E path w = (Inr None, w1)" "files w1 = files w" "heap w1 = heap w"
  then show ?thesis by (simp add: detect_image_unfold)
next
  fix content img w1
  assume rd: "cv2_imread E path w = (Inr (Some (next_addr w)), w1)"
    and f: "files w path = Some content" "read_image E content = Some img"
    and w1: "files w1 = files w" "next_addr w1 = Suc (next_addr w)"
      "heap w1 = (heap w)(next_addr w := img)"
  have eq: "detect_image E d path c w = detect_frame E d (next_addr w) c w1"
    using rd by (simp add: detect_image_unfold)
  have "next_addr w < next_addr w1" using w1 by simp
  from detect_frame_effect [OF this, of E d c] f w1 show ?thesis
    by (simp add: eq)
qed

section \<open>The annotator draws what it owes\<close>

text \<open>
  The loop over the boxes, which writes into the heap and adds to the trace, against the
  annotations of the boxes: when every box has an annotation, the loop returns their
  detections and leaves the array with all their strokes composited; when one has none,
  the loop raises what that box raises. \<open>draw_box_trace\<close> lists the drawing calls of one box.
\<close>

lemma draw_box_drawn:
  assumes "annotation_of E d box = Inr an"
  shows "draw_box E d a box w = (Inr (ann_detection an), drawn a an w)"
  using assms
  by (auto simp: annotation_of_def draw_box_def then_do_def lift_def ret_def Let_def
      cv2_rectangle_def cv2_putText_def record_event_def paint_def drawn_def render_def
      annotation_calls_def
      split: sum.splits option.splits)

lemma draw_box_raises:
  assumes "annotation_of E d box = Inl e"
  shows "fst (draw_box E d a box w) = Inl e"
  using assms
  by (auto simp: annotation_of_def draw_box_def then_do_def lift_def ret_def Let_def
      cv2_rectangle_def cv2_putText_def
      split: sum.splits option.splits)

lemma render_append: "render img (xs @ ys) = render (render img xs) ys"
  by (simp add: render_def)

lemma fold_drawn_heap:
  "heap (fold (drawn a) anns w) b =
     (if b = a then render (heap w a) (concat (map ann_strokes anns)) else heap w b)"
proof (induction anns arbitrary: w)
  case Nil
  show ?case by (simp add: render_def)
next
  case (Cons an anns)
  have "heap (fold (drawn a) (an # anns) w) b = heap (fold (drawn a) anns (drawn a an w)) b"
    by simp
  also have "\<dots> = (if b = a
      then render (heap (drawn a an w) a) (concat (map ann_strokes anns))
      else heap (drawn a an w) b)"
    by (rule Cons.IH)
  also have "\<dots> = (if b = a
      then render (heap w a) (concat (map ann_strokes (an # anns))) else heap w b)"
    by (simp add: drawn_def render_append)
  finally show ?case .
qed

lemma fold_drawn_trace:
  "trace (fold (drawn a) anns w) = trace w @ concat (map (annotation_calls a) anns)"
  by (induction anns arbitrary: w) (simp_all add: drawn_def)

lemma fold_drawn_rest:
  "files (fold (drawn a) anns w) = files w \<and> next_addr (fold (drawn a) anns w) = next_addr w"
  by (induction anns arbitrary: w) (simp_all add: drawn_def)

lemma draw_boxes_drawn:
  assumes "annotations E d boxes = Inr anns"
  shows "draw_boxes E d a boxes dets w =
     (Inr (dets @ map ann_detection anns), fold (drawn a) anns w)"
  using assms
proof (induction boxes arbitrary: dets w anns)
  case Nil
  then show ?case by (simp add: ret_def)
next
  case (Cons box boxes)
  from Cons.prems obtain an ans where an: "annotation_of E d box = Inr an"
    and ans: "annotations E d boxes = Inr ans" and anns: "anns = an # ans"
    by (auto split: sum.splits)
  from Cons.IH [OF ans, of "dets @ [ann_detection an]" "drawn a an w"]
  show ?case by (simp add: draw_box_drawn [OF an] anns)
qed

lemma draw_boxes_raises:
  assumes "annotations E d boxes = Inl e"
  shows "fst (draw_boxes E d a boxes dets w) = Inl e"
  using assms
proof (induction boxes arbitrary: dets w)
  case Nil
  then show ?case by simp
next
  case (Cons box boxes)
  show ?case
  proof (cases "annotation_of E d box")
    case (Inl e')
    with Cons.prems have "e' = e" by simp
    with draw_box_raises [OF Inl, of a w] show ?thesis
      by (cases "draw_box E d a box w") simp
  next
    case (Inr an)
    with Cons.prems have "annotations E d boxes = Inl e"
      by (simp split: sum.splits)
    from Cons.IH [OF this] show ?thesis
      by (simp add: draw_box_drawn [OF Inr])
  qed
qed

lemma annotations_append:
  "annotations E d (xs @ ys) =
     (case annotations E d xs of
        Inl e \<Rightarrow> Inl e
      | Inr as \<Rightarrow> (case annotations E d ys of Inl e \<Rightarrow> Inl e | Inr bs \<Rightarrow> Inr (as @ bs)))"
  by (induction xs) (auto split: sum.splits)

lemma draw_results_drawn:
  assumes "annotations E d (concat results) = Inr anns"
  shows "draw_results E d a results dets w =
     (Inr (dets @ map ann_detection anns), fold (drawn a) anns w)"
  using assms
proof (induction results arbitrary: dets w anns)
  case Nil
  then show ?case by (simp add: ret_def)
next
  case (Cons boxes results)
  from Cons.prems obtain as bs where as: "annotations E d boxes = Inr as"
    and bs: "annotations E d (concat results) = Inr bs" and anns: "anns = as @ bs"
    by (auto simp: annotations_append split: sum.splits)
  from Cons.IH [OF bs, of "dets @ map ann_detection as" "fold (drawn a) as w"]
  show ?case by (simp add: draw_boxes_drawn [OF as] anns)
qed

lemma draw_results_raises:
  assumes "annotations E d (concat results) = Inl e"
  shows "fst (draw_results E d a results dets w) = Inl e"
  using assms
proof (induction results arbitrary: dets w)
  case Nil
  then show ?case by simp
next
  case (Cons boxes results)
  show ?case
  proof (cases "annotations E d boxes")
    case (Inl e')
    with Cons.prems have "e' = e" by (simp add: annotations_append)
    with draw_boxes_raises [OF Inl, of a dets w] show ?thesis
      by (cases "draw_boxes E d a boxes dets w") simp
  next
    case (Inr as)
    with Cons.prems have "annotations E d (concat results) = Inl e"
      by (simp add: annotations_append split: sum.splits)
    from Cons.IH [OF this] show ?thesis
      by (simp add: draw_boxes_drawn [OF Inr])
  qed
qed

lemma detect_frame_refines:
  assumes "model_predict d (heap w frame) c = Inr results"
  shows "fst (detect_frame E d frame c w) =
       (case annotations E d (concat results) of
          Inl e \<Rightarrow> Inl e
        | Inr anns \<Rightarrow> Inr (next_addr w, map ann_detection anns))"
    and "annotations E d (concat results) = Inr anns \<Longrightarrow>
       heap (snd (detect_frame E d frame c w)) (next_addr w) =
         render (heap w frame) (concat (map ann_strokes anns))
       \<and> trace (snd (detect_frame E d frame c w)) =
           trace w @ EvPredict # concat (map (annotation_calls (next_addr w)) anns)"
proof -
  let ?w1 = "snd (array_copy frame (record_event EvPredict w))"
  have run: "detect_frame E d frame c w =
      (case draw_results E d (next_addr w) results [] ?w1 of
         (Inl e, w') \<Rightarrow> (Inl e, w')
       | (Inr dets, w') \<Rightarrow> (Inr (next_addr w, dets), w'))"
    using assms
    by (simp add: detect_frame_def then_do_def predict_def array_copy_def ret_def
        record_event_def split: prod.splits sum.splits)
  show "fst (detect_frame E d frame c w) =
       (case annotations E d (concat results) of
          Inl e \<Rightarrow> Inl e
        | Inr anns \<Rightarrow> Inr (next_addr w, map ann_detection anns))"
  proof (cases "annotations E d (concat results)")
    case (Inl e)
    obtain r w' where dr: "draw_results E d (next_addr w) results [] ?w1 = (r, w')"
      by (cases "draw_results E d (next_addr w) results [] ?w1")
    with draw_results_raises [OF Inl, of "next_addr w" "[]" ?w1] have "r = Inl e" by simp
    with dr Inl show ?thesis by (simp add: run)
  next
    case (Inr anns)
    from draw_results_drawn [OF this, of "next_addr w" "[]" ?w1] Inr show ?thesis
      by (simp add: run)
  qed
  assume "annotations E d (concat results) = Inr anns"
  from draw_results_drawn [OF this, of "next_addr w" "[]" ?w1]
  show "heap (snd (detect_frame E d frame c w)) (next_addr w) =
         render (heap w frame) (concat (map ann_strokes anns))
       \<and> trace (snd (detect_frame E d frame c w)) =
           trace w @ EvPredict # concat (map (annotation_calls (next_addr w)) anns)"
    by (simp add: run fold_drawn_heap fold_drawn_trace array_copy_def record_event_def)
qed

lemma cv2_imread_ok:
  assumes "files w path = Some content" "read_image E content = Some img"
  shows "\<exists>w1. cv2_imread E path w = (Inr (Some (next_addr w)), w1)
     \<and> heap w1 (next_addr w) = img \<and> next_addr w1 = Suc (next_addr w)
     \<and> trace w1 = trace w @ [EvImread path]"
  using assms
  by (simp add: cv2_imread_def Let_def record_event_def then_do_def new_array_def ret_def)

lemma detect_image_refines:
  assumes "files w path = Some content" "read_image E content = Some img"
    "model_predict d img c = Inr results"
  shows "fst (detect_image E d path c w) =
       (case annotations E d (concat results) of
          Inl e \<Rightarrow> Inl e
        | Inr anns \<Rightarrow> Inr (Suc (next_addr w), map ann_detection anns))"
    and "annotations E d (concat results) = Inr anns \<Longrightarrow>
       heap (snd (detect_image E d path c w)) (Suc (next_addr w)) =
         render img (concat (map ann_strokes anns))
       \<and> trace (snd (detect_image E d path c w)) =
           trace w @ EvImread path # EvPredict #
             concat (map (annotation_calls (Suc (next_addr w))) anns)"
proof -
  from cv2_imread_ok [OF assms(1,2)] obtain w1 where
    rd: "cv2_imread E path w = (Inr (Some (next_addr w)), w1)"
    and w1: "heap w1 (next_addr w) = img" "next_addr w1 = Suc (next_addr w)"
      "trace w1 = trace w @ [EvImread path]"
    by blast
  have eq: "detect_image E d path c w = detect_frame E d (next_addr w) c w1"
    using rd by (simp add: detect_image_unfold)
  have mp: "model_predict d (heap w1 (next_addr w)) c = Inr results"
    using assms(3) w1 by simp
  from detect_frame_refines(1) [OF mp, of E]
  show "fst (detect_image E d path c w) =
       (case annotations E d (concat results) of
          Inl e \<Rightarrow> Inl e
        | Inr anns \<Rightarrow> Inr (Suc (next_addr w), map ann_detection anns))"
    by (simp add: eq w1 split: sum.splits)
  assume "annotations E d (concat results) = Inr anns"
  from detect_frame_refines(2) [OF mp this]
  show "heap (snd (detect_image E d path c w)) (Suc (next_addr w)) =
         render img (concat (map ann_strokes anns))
       \<and> trace (snd (detect_image E d path c w)) =
           trace w @ EvImread path # EvPredict #
             concat (map (annotation_calls (Suc (next_addr w))) anns)"
    by (simp add: eq w1)
qed

lemma draw_box_trace:
  assumes "py_int (box_x1 box) = Inr x1" "py_int (box_y1 box) = Inr y1"
    "py_int (box_x2 box) = Inr x2" "py_int (box_y2 box) = Inr y2"
    "class_names d (box_cls box) = Some name"
  shows "trace (snd (draw_box E d a box w)) =
     trace w @ EvRectangle a (x1, y1) (x2, y2) 2 #
       (case rectangle_pts E (x1, y1) (x2, y2) 2 of
          Inl e \<Rightarrow> []
        | Inr pts \<Rightarrow>
            EvRectangle a
              (x1, y1 - snd (getTextSize E (name @ '': '' @ format_2f E (box_conf box))) - 10)
              (x1 + fst (getTextSize E (name @ '': '' @ format_2f E (box_conf box))) + 10, y1)
              (- 1) #
            (case rectangle_pts E
                    (x1, y1 - snd (getTextSize E (name @ '': '' @ format_2f E (box_conf box))) - 10)
                    (x1 + fst (getTextSize E (name @ '': '' @ format_2f E (box_conf box))) + 10, y1)
                    (- 1) of
               Inl e \<Rightarrow> []
             | Inr pts' \<Rightarrow>
                 [EvPutText a (name @ '': '' @ format_2f E (box_conf box)) (x1 + 5, y1 - 5)]))"
  using assms
  by (simp add: draw_box_def then_do_def lift_def ret_def Let_def cv2_rectangle_def
      cv2_putText_def record_event_def paint_def label_background_def
      split: sum.splits)

section \<open>File names and payloads\<close>

lemma rsplit1_length: "c \<in> set s \<Longrightarrow> length (rsplit1 c s) = 2"
  by (simp add: rsplit1_def)

lemma rsplit1_last:
  "c \<notin> set ext \<Longrightarrow> rsplit1 c (stem @ c # ext) = [stem, ext]"
proof -
  assume n: "c \<notin> set ext"
  have "takeWhile (\<lambda>x. x \<noteq> c) (rev ext @ c # rev stem) = rev ext"
    using n by (subst takeWhile_append2) auto
  moreover have "dropWhile (\<lambda>x. x \<noteq> c) (rev ext @ c # rev stem) = c # rev stem"
    using n by (subst dropWhile_append2) auto
  ultimately show ?thesis by (simp add: rsplit1_def)
qed

lemma rsplit1_decompose:
  assumes "c \<in> set s"
  shows "s = rsplit1 c s ! 0 @ c # rsplit1 c s ! 1 \<and> c \<notin> set (rsplit1 c s ! 1)"
proof -
  let ?r = "rev s"
  have c: "c \<in> set ?r" using assms by simp
  then have ne: "dropWhile (\<lambda>x. x \<noteq> c) ?r \<noteq> []"
    by (simp add: dropWhile_eq_Nil_conv)
  then have hd: "hd (dropWhile (\<lambda>x. x \<noteq> c) ?r) = c"
    using hd_dropWhile [of "\<lambda>x. x \<noteq> c" ?r] by simp
  have "?r = takeWhile (\<lambda>x. x \<noteq> c) ?r @ dropWhile (\<lambda>x. x \<noteq> c) ?r" by simp
  also have "dropWhile (\<lambda>x. x \<noteq> c) ?r = c # tl (dropWhile (\<lambda>x. x \<noteq> c) ?r)"
    using ne hd by (cases "dropWhile (\<lambda>x. x \<noteq> c) ?r") simp_all
  finally have "rev ?r = rev (takeWhile (\<lambda>x. x \<noteq> c) ?r @ c # tl (dropWhile (\<lambda>x. x \<noteq> c) ?r))"
    by simp
  then have "s = rev (tl (dropWhile (\<lambda>x. x \<noteq> c) ?r)) @ c # rev (takeWhile (\<lambda>x. x \<noteq> c) ?r)"
    by simp
  moreover have "c \<notin> set (rev (takeWhile (\<lambda>x. x \<noteq> c) ?r))"
    by (auto dest: set_takeWhileD)
  ultimately show ?thesis using assms by (simp add: rsplit1_def)
qed

lemma allowed_file_iff:
  "allowed_file name \<longleftrightarrow>
     (\<exists>stem ext. name = stem @ CHR ''.'' # ext \<and> CHR ''.'' \<notin> set ext
        \<and> lower ext \<in> ALLOWED_EXTENSIONS)"
proof
  assume a: "allowed_file name"
  then have d: "CHR ''.'' \<in> set name" by (simp add: allowed_file_def)
  from rsplit1_decompose [OF d] a show "\<exists>stem ext. name = stem @ CHR ''.'' # ext
      \<and> CHR ''.'' \<notin> set ext \<and> lower ext \<in> ALLOWED_EXTENSIONS"
    unfolding allowed_file_def by blast
next
  assume "\<exists>stem ext. name = stem @ CHR ''.'' # ext \<and> CHR ''.'' \<notin> set ext
      \<and> lower ext \<in> ALLOWED_EXTENSIONS"
  then obtain stem ext where "name = stem @ CHR ''.'' # ext" "CHR ''.'' \<notin> set ext"
    "lower ext \<in> ALLOWED_EXTENSIONS" by blast
  then show "allowed_file name"
    by (simp add: allowed_file_def rsplit1_last)
qed

lemma split_on_nonempty: "split_on c s \<noteq> []"
  by (induction s) (auto split: list.splits)

lemma split_on_length: "c \<in> set s \<Longrightarrow> 2 \<le> length (split_on c s)"
proof (induction s)
  case Nil
  then show ?case by simp
next
  case (Cons x xs)
  show ?case
  proof (cases "x = c")
    case True
    with split_on_nonempty [of c xs] show ?thesis
      by (cases "split_on c xs") simp_all
  next
    case False
    with Cons show ?thesis by (auto split: list.splits)
  qed
qed

lemma split_on_no_sep: "c \<notin> set s \<Longrightarrow> split_on c s = [s]"
  by (induction s) auto

lemma split_on_prefix:
  "c \<notin> set p \<Longrightarrow> split_on c (p @ c # t) = p # split_on c t"
  by (induction p) (auto split: list.splits)

lemma split_on_hd: "hd (split_on c s) = takeWhile (\<lambda>x. x \<noteq> c) s"
proof (induction s)
  case Nil
  show ?case by simp
next
  case (Cons x xs)
  with split_on_nonempty [of c xs] show ?case
    by (cases "split_on c xs") simp_all
qed

text \<open>
  What lines 184 to 186 keep of the image string: the text between the first comma and the
  second one (or the end of the string when there is no second comma).
\<close>

lemma image_payload_eq:
  "image_payload s =
     (if CHR '','' \<in> set s
      then takeWhile (\<lambda>x. x \<noteq> CHR '','') (tl (dropWhile (\<lambda>x. x \<noteq> CHR '','') s))
      else s)"
proof (cases "CHR '','' \<in> set s")
  case False
  then show ?thesis by (simp add: image_payload_def)
next
  case True
  let ?p = "takeWhile (\<lambda>x. x \<noteq> CHR '','') s"
  let ?d = "dropWhile (\<lambda>x. x \<noteq> CHR '','') s"
  from True have ne: "?d \<noteq> []" by (simp add: dropWhile_eq_Nil_conv)
  then have "hd ?d = CHR '',''" using hd_dropWhile [of "\<lambda>x. x \<noteq> CHR '',''" s] by simp
  with ne have d: "?d = CHR '','' # tl ?d" by (cases ?d) simp_all
  have "s = ?p @ ?d" by simp
  with d have s: "s = ?p @ CHR '','' # tl ?d" by simp
  have "CHR '','' \<notin> set ?p" by (auto dest: set_takeWhileD)
  from split_on_prefix [OF this, of "tl ?d"] s
  have "split_on CHR '','' s = ?p # split_on CHR '','' (tl ?d)" by simp
  moreover from split_on_nonempty [of "CHR '',''" "tl ?d"]
  have "split_on CHR '','' (tl ?d) ! 0 = hd (split_on CHR '','' (tl ?d))"
    by (cases "split_on CHR '','' (tl ?d)") simp_all
  ultimately show ?thesis using True
    by (simp add: image_payload_def split_on_hd)
qed


section \<open>The file system calls of the upload handler\<close>

lemma file_save_ok:
  "save_result E path content = (Some written, None) \<Longrightarrow>
     file_save E path content w =
       (Inr (), w\<lparr>trace := trace w @ [EvSave path], files := (files w)(path \<mapsto> written)\<rparr>)"
  by (simp add: file_save_def Let_def record_event_def)



lemma cleanup_trace:
  assumes "files w fp \<noteq> None"
  shows "trace (cleanup E (Some fp) out w) =
     trace w @ [EvExists fp, EvRemove fp] @
       (if remove_error E fp = None
        then (case out of
                None \<Rightarrow> []
              | Some p \<Rightarrow> EvExists p # (if p \<noteq> fp \<and> files w p \<noteq> None then [EvRemove p] else []))
        else [])"
  using assms
  by (auto simp: cleanup_def remove_if_exists_def local_var_def os_path_exists_def
      os_remove_def then_do_def ret_def raise_def record_event_def Let_def
      split: option.splits)

lemma cleanup_files:
  assumes "files w fp \<noteq> None"
  shows "files (cleanup E (Some fp) out w) =
     (if remove_error E fp = None
      then (case out of
              None \<Rightarrow> (files w)(fp := None)
            | Some p \<Rightarrow>
                if p \<noteq> fp \<and> files w p \<noteq> None \<and> remove_error E p = None
                then (files w)(fp := None, p := None)
                else (files w)(fp := None))
      else files w)"
  using assms
  by (auto simp: cleanup_def remove_if_exists_def local_var_def os_path_exists_def
      os_remove_def then_do_def ret_def raise_def record_event_def Let_def
      split: option.splits)


lemma detect_valid:
  assumes "file_field req = Some (name, content)" "name \<noteq> []" "allowed_file name"
  shows "detect E (Some d) req w =
     (case detect_body E d (upload_filename E name) content (form_confidence req) w of
        (Inr resp, _, w') \<Rightarrow> (resp, w')
      | (Inl e, output_path, w') \<Rightarrow>
          ((500, Failure (''Detection failed: '' @ str e)),
           cleanup E (Some (in_upload_folder (upload_filename E name))) output_path w'))"
  using assms by (simp add: detect_def)











section \<open>The frame handler when decoding fails\<close>

lemma detect_frame_route_b64_error:
  assumes "json req = Inr (Some obj)" "image_field obj = Some s"
    "float_of_conf E (confidence_field obj) = Inr c" "b64decode E (image_payload s) = Inl e"
  shows "detect_frame_route E (Some d) req w =
     ((500, Failure (''Frame detection failed: '' @ str e)), w)"
  using assms
  by (simp add: detect_frame_route_def detect_frame_body_def then_do_def lift_def)

lemma detect_frame_route_no_raster:
  assumes "json req = Inr (Some obj)" "image_field obj = Some s"
    "float_of_conf E (confidence_field obj) = Inr c" "b64decode E (image_payload s) = Inr bs"
    "imdecode E bs = Inr None"
  shows "detect_frame_route E (Some d) req w = ((400, Failure ''Failed to decode image''), w)"
  using assms
  by (simp add: detect_frame_route_def detect_frame_body_def then_do_def lift_def ret_def)

lemma py_b64decode_not_base64:
  "py_b64decode ''not-base64'' =
     Inl (Exn ''binascii.Error''
       ''Invalid base64-encoded string: number of data characters (9) cannot be 1 more than a multiple of 4'')"
  by (simp add: py_b64decode_def b64_value_def str_nat.simps char_of_def bit_0)

section \<open>The concrete instance, evaluated\<close>

lemma upload_filename_sample:
  "upload_filename sample_env name = ''1700000000000_'' @ name"
  "upload_filename late_failure_env name = ''1700000000000_'' @ name"
  by (simp_all add: upload_filename_def sample_env_def late_failure_env_def str_nat.simps
      char_of_def bit_0)

lemma allowed_png: "allowed_file ''a.png''"
  by (simp add: allowed_file_def rsplit1_def lower_def lower_char_def ALLOWED_EXTENSIONS_def)

lemma not_allowed_txt: "\<not> allowed_file ''notes.txt''"
  by (simp add: allowed_file_def rsplit1_def lower_def lower_char_def ALLOWED_EXTENSIONS_def)

lemma sample_annotation:
  "annotation_of sample_env sample_detector sample_box =
     Inr \<lparr>ann_detection =
            \<lparr>class_name = ''plastic'', confidence = Fin (9 / 10), bbox = [0, 0, 1, 1]\<rparr>,
          ann_color = (0, 255, 255), ann_label = ''plastic: 0.90'',
          ann_corner1 = (0, 0), ann_corner2 = (1, 1),
          ann_background = ((0, - 23), (153, 0)),
          ann_strokes = [([(0, 0), (1, 1)], (0, 255, 255)),
                         ([(0, - 23), (153, 0)], (0, 255, 255)),
                         ([(5, - 5)], (0, 0, 0))]\<rparr>"
  by (simp add: annotation_of_def sample_env_def sample_detector_def sample_box_def
      label_background_def colors_def lower_def lower_char_def Let_def)

lemma sample_render:
  "render sample_image
     [([(0, 0), (1, 1)], (0, 255, 255)), ([(0, - 23), (153, 0)], (0, 255, 255)),
      ([(5, - 5)], (0, 0, 0))] =
   \<lparr>height = 2, width = 2, pixels = [(0, 255, 255), (9, 9, 9), (9, 9, 9), (0, 255, 255)]\<rparr>"
  by (simp add: render_def set_pixel_def sample_image_def numeral_3_eq_3)


section \<open>The claims\<close>



text \<open>
  C3. With the detector handle unset, \<^verbatim>\<open>/detect\<close> and \<^verbatim>\<open>/detect_frame\<close> answer 500 with the
  model-not-loaded error for every request, and leave the world as it was: no call to the
  model, to the file system or to OpenCV is added to the trace, and no file changes.
\<close>

theorem model_not_loaded_short_circuit:
  "detect E None req w = (model_not_loaded, w)
   \<and> detect_frame_route E None freq w = (model_not_loaded, w)
   \<and> model_not_loaded = (500, Failure ''Model not loaded. Please check if models/best.pt exists.'')"
  by (simp add: detect_def detect_frame_route_def model_not_loaded_def)

text \<open>
  C4. With the detector loaded, a request to \<^verbatim>\<open>/detect\<close> that has no \<^verbatim>\<open>file\<close> part, or an
  empty filename, or a filename that does not end in a dot followed by one of png, jpg,
  jpeg, bmp, webp (the extension is compared without regard to case), is answered 400 with
  the message of the check that failed, and the world is unchanged: no file is written and
  no detection is run.
\<close>

theorem detect_rejects_invalid_upload:
  assumes "file_field req = None
           \<or> (\<exists>name content. file_field req = Some (name, content)
                 \<and> (name = []
                      \<or> \<not> (\<exists>stem ext. name = stem @ CHR ''.'' # ext \<and> CHR ''.'' \<notin> set ext
                               \<and> lower ext \<in> ALLOWED_EXTENSIONS)))"
  shows "detect E (Some d) req w =
     ((400, Failure (case file_field req of
                       None \<Rightarrow> ''No file uploaded''
                     | Some (name, content) \<Rightarrow>
                         if name = [] then ''No file selected''
                         else ''Invalid file type. Allowed types: ''
                              @ join '', '' (set_order E))),
      w)"
proof (cases "file_field req")
  case None
  then show ?thesis by (simp add: detect_def)
next
  case (Some f)
  obtain name content where f: "f = (name, content)" by (cases f)
  with Some assms have bad: "name = [] \<or> \<not> allowed_file name"
    by (simp add: allowed_file_iff)
  show ?thesis
  proof (cases "name = []")
    case True
    with Some f show ?thesis by (simp add: detect_def)
  next
    case False
    with bad have "\<not> allowed_file name" by simp
    with False Some f show ?thesis by (simp add: detect_def)
  qed
qed

text \<open>
  An instance of C4: the upload of \<^verbatim>\<open>notes.txt\<close>.
\<close>

theorem detect_rejects_invalid_upload_witness:
  "detect sample_env (Some sample_detector)
     \<lparr>file_field = Some (''notes.txt'', [104, 105]), form_confidence = None\<rparr> sample_world =
   ((400, Failure ''Invalid file type. Allowed types: png, jpg, jpeg, bmp, webp''), sample_world)"
proof -
  let ?req = "\<lparr>file_field = Some (''notes.txt'', [104, 105::nat]), form_confidence = None\<rparr>"
  have "\<not> (\<exists>stem ext. ''notes.txt'' = stem @ CHR ''.'' # ext \<and> CHR ''.'' \<notin> set ext
            \<and> lower ext \<in> ALLOWED_EXTENSIONS)"
    using not_allowed_txt allowed_file_iff [of "''notes.txt''"] by blast
  then have "file_field ?req = None
      \<or> (\<exists>name content. file_field ?req = Some (name, content)
            \<and> (name = []
                 \<or> \<not> (\<exists>stem ext. name = stem @ CHR ''.'' # ext \<and> CHR ''.'' \<notin> set ext
                          \<and> lower ext \<in> ALLOWED_EXTENSIONS)))"
    by simp
  moreover have "join '', '' (set_order sample_env) = ''png, jpg, jpeg, bmp, webp''"
    by (simp add: sample_env_def)
  ultimately show ?thesis
    using detect_rejects_invalid_upload [of ?req sample_env sample_detector sample_world] by simp
qed

text \<open>
  C5 fails on the code. The image value \<^verbatim>\<open>not-base64\<close> holds nine characters of the base64
  alphabet, so the decoder raises; the exception reaches the handler's \<^verbatim>\<open>except\<close> clause and
  the answer is 500 \<^verbatim>\<open>Frame detection failed: ...\<close>, not 400. The handler answers 400 only
  when the decoder returns bytes that are no image (lemma \<open>detect_frame_route_no_raster\<close>).
\<close>

theorem detect_frame_invalid_base64_is_500:
  "detect_frame_route sample_env (Some sample_detector)
     \<lparr>json = Inr (Some \<lparr>image_field = Some ''not-base64'', confidence_field = None\<rparr>)\<rparr>
     sample_world =
   ((500, Failure ''Frame detection failed: Invalid base64-encoded string: number of data characters (9) cannot be 1 more than a multiple of 4''),
    sample_world)"
proof -
  have "b64decode sample_env (image_payload ''not-base64'') =
     Inl (Exn ''binascii.Error''
       ''Invalid base64-encoded string: number of data characters (9) cannot be 1 more than a multiple of 4'')"
    by (simp add: sample_env_def image_payload_def py_b64decode_not_base64)
  from detect_frame_route_b64_error [OF _ _ _ this, of _ "\<lparr>image_field = Some ''not-base64'', confidence_field = None\<rparr>" "Fin (1 / 4)"]
  show ?thesis by (simp add: float_of_conf_def)
qed

text \<open>
  C6. \<^verbatim>\<open>detect_frame\<close>, called on an allocated array, leaves every array that existed before
  the call as it was, the caller's frame among them; when it returns, the annotated array is
  another array and has the height and width of the frame. \<^verbatim>\<open>detect_image\<close> changes no file
  and no array that existed before the call; when it returns, the array it read from the
  file is still what the decoder gave, and the annotated array is another array of the same
  height and width. Both hold whatever boxes the model reports, none included, and also
  when the call raises half way. And the drawing is all there, on the copy: when the model
  answers and every reported box has its annotation, the call returns the detections of the
  boxes in order, the returned array is the input raster with the strokes of all boxes
  composited in order (outline, label background, label text for each), and the trace shows
  the prediction followed by the three drawing calls of each box on the returned array and
  nothing else; when a box has no annotation, the call raises what that box raises.
\<close>

theorem annotator_draws_on_copy:
  assumes "frame < next_addr w"
  shows "(\<forall>b. b < next_addr w \<longrightarrow> heap (snd (detect_frame E d frame c w)) b = heap w b)
    \<and> (\<forall>a dets. fst (detect_frame E d frame c w) = Inr (a, dets) \<longrightarrow>
          a \<noteq> frame
          \<and> height (heap (snd (detect_frame E d frame c w)) a) = height (heap w frame)
          \<and> width (heap (snd (detect_frame E d frame c w)) a) = width (heap w frame))
    \<and> files (snd (detect_image E d path c w)) = files w
    \<and> (\<forall>b. b < next_addr w \<longrightarrow> heap (snd (detect_image E d path c w)) b = heap w b)
    \<and> (\<forall>a dets. fst (detect_image E d path c w) = Inr (a, dets) \<longrightarrow>
          (\<exists>content img. files w path = Some content \<and> read_image E content = Some img
             \<and> heap (snd (detect_image E d path c w)) (next_addr w) = img
             \<and> a \<noteq> next_addr w
             \<and> height (heap (snd (detect_image E d path c w)) a) = height img
             \<and> width (heap (snd (detect_image E d path c w)) a) = width img))
    \<and> (\<forall>results. model_predict d (heap w frame) c = Inr results \<longrightarrow>
          fst (detect_frame E d frame c w) =
            (case annotations E d (concat results) of
               Inl e \<Rightarrow> Inl e
             | Inr anns \<Rightarrow> Inr (next_addr w, map ann_detection anns)))
    \<and> (\<forall>results anns. model_predict d (heap w frame) c = Inr results
             \<and> annotations E d (concat results) = Inr anns \<longrightarrow>
          heap (snd (detect_frame E d frame c w)) (next_addr w) =
            render (heap w frame) (concat (map ann_strokes anns))
          \<and> trace (snd (detect_frame E d frame c w)) =
              trace w @ EvPredict # concat (map (annotation_calls (next_addr w)) anns))
    \<and> (\<forall>content img results. files w path = Some content \<and> read_image E content = Some img
             \<and> model_predict d img c = Inr results \<longrightarrow>
          fst (detect_image E d path c w) =
            (case annotations E d (concat results) of
               Inl e \<Rightarrow> Inl e
             | Inr anns \<Rightarrow> Inr (Suc (next_addr w), map ann_detection anns)))
    \<and> (\<forall>content img results anns. files w path = Some content
             \<and> read_image E content = Some img \<and> model_predict d img c = Inr results
             \<and> annotations E d (concat results) = Inr anns \<longrightarrow>
          heap (snd (detect_image E d path c w)) (Suc (next_addr w)) =
            render img (concat (map ann_strokes anns))
          \<and> trace (snd (detect_image E d path c w)) =
              trace w @ EvImread path # EvPredict #
                concat (map (annotation_calls (Suc (next_addr w))) anns))"
proof (intro conjI allI impI)
  fix b assume "b < next_addr w"
  with detect_frame_effect [OF assms, of E d c]
  show "heap (snd (detect_frame E d frame c w)) b = heap w b" by blast
next
  fix a dets assume r: "fst (detect_frame E d frame c w) = Inr (a, dets)"
  with detect_frame_effect [OF assms, of E d c] have a: "a = next_addr w"
    and sz: "height (heap (snd (detect_frame E d frame c w)) a) = height (heap w frame)"
      "width (heap (snd (detect_frame E d frame c w)) a) = width (heap w frame)"
    by blast+
  from a assms show "a \<noteq> frame" by simp
  from sz show "height (heap (snd (detect_frame E d frame c w)) a) = height (heap w frame)"
    and "width (heap (snd (detect_frame E d frame c w)) a) = width (heap w frame)"
    by simp_all
next
  show "files (snd (detect_image E d path c w)) = files w"
    using detect_image_effect [of E d path c w] by blast
next
  fix b assume "b < next_addr w"
  with detect_image_effect [of E d path c w]
  show "heap (snd (detect_image E d path c w)) b = heap w b" by blast
next
  fix a dets assume "fst (detect_image E d path c w) = Inr (a, dets)"
  with detect_image_effect [of E d path c w]
  obtain content img where "files w path = Some content" "read_image E content = Some img"
    "heap (snd (detect_image E d path c w)) (next_addr w) = img" "a = Suc (next_addr w)"
    "height (heap (snd (detect_image E d path c w)) a) = height img"
    "width (heap (snd (detect_image E d path c w)) a) = width img"
    by blast
  then show "\<exists>content img. files w path = Some content \<and> read_image E content = Some img
      \<and> heap (snd (detect_image E d path c w)) (next_addr w) = img
      \<and> a \<noteq> next_addr w
      \<and> height (heap (snd (detect_image E d path c w)) a) = height img
      \<and> width (heap (snd (detect_image E d path c w)) a) = width img"
    by auto
next
  fix results assume "model_predict d (heap w frame) c = Inr results"
  then show "fst (detect_frame E d frame c w) =
      (case annotations E d (concat results) of
         Inl e \<Rightarrow> Inl e
       | Inr anns \<Rightarrow> Inr (next_addr w, map ann_detection anns))"
    by (rule detect_frame_refines(1))
next
  fix results anns
  assume h: "model_predict d (heap w frame) c = Inr results
      \<and> annotations E d (concat results) = Inr anns"
  from detect_frame_refines(2) [of d w frame c results E anns] h
  show "heap (snd (detect_frame E d frame c w)) (next_addr w) =
      render (heap w frame) (concat (map ann_strokes anns))"
    and "trace (snd (detect_frame E d frame c w)) =
      trace w @ EvPredict # concat (map (annotation_calls (next_addr w)) anns)"
    by simp_all
next
  fix content img results
  assume "files w path = Some content \<and> read_image E content = Some img
      \<and> model_predict d img c = Inr results"
  then show "fst (detect_image E d path c w) =
      (case annotations E d (concat results) of
         Inl e \<Rightarrow> Inl e
       | Inr anns \<Rightarrow> Inr (Suc (next_addr w), map ann_detection anns))"
    using detect_image_refines(1) [of w path content E img d c results] by simp
next
  fix content img results anns
  assume h: "files w path = Some content \<and> read_image E content = Some img
      \<and> model_predict d img c = Inr results \<and> annotations E d (concat results) = Inr anns"
  from detect_image_refines(2) [of w path content E img d c results anns] h
  show "heap (snd (detect_image E d path c w)) (Suc (next_addr w)) =
      render img (concat (map ann_strokes anns))"
    and "trace (snd (detect_image E d path c w)) =
      trace w @ EvImread path # EvPredict #
        concat (map (annotation_calls (Suc (next_addr w))) anns)"
    by simp_all
qed

text \<open>
  An instance of C6: one box of class \<^verbatim>\<open>plastic\<close>, on the frame at address 0 and on the
  file \<^verbatim>\<open>static/uploads/in.png\<close>. Both calls return, the inputs are as they were, and the
  returned arrays have the outline painted at the two corners inside the raster.
\<close>

theorem annotator_draws_on_copy_witness:
  "(0::nat) < next_addr (sample_world\<lparr>files := [''static/uploads/in.png'' \<mapsto> [137, 80]]\<rparr>)
   \<and> fst (detect_frame sample_env sample_detector 0 (Fin (1 / 4))
            (sample_world\<lparr>files := [''static/uploads/in.png'' \<mapsto> [137, 80]]\<rparr>)) =
       Inr (1, [\<lparr>class_name = ''plastic'', confidence = Fin (9 / 10), bbox = [0, 0, 1, 1]\<rparr>])
   \<and> heap (snd (detect_frame sample_env sample_detector 0 (Fin (1 / 4))
            (sample_world\<lparr>files := [''static/uploads/in.png'' \<mapsto> [137, 80]]\<rparr>))) 0 = sample_image
   \<and> heap (snd (detect_frame sample_env sample_detector 0 (Fin (1 / 4))
            (sample_world\<lparr>files := [''static/uploads/in.png'' \<mapsto> [137, 80]]\<rparr>))) 1 =
       \<lparr>height = 2, width = 2, pixels = [(0, 255, 255), (9, 9, 9), (9, 9, 9), (0, 255, 255)]\<rparr>
   \<and> trace (snd (detect_frame sample_env sample_detector 0 (Fin (1 / 4))
            (sample_world\<lparr>files := [''static/uploads/in.png'' \<mapsto> [137, 80]]\<rparr>))) =
       [EvPredict, EvRectangle 1 (0, 0) (1, 1) 2, EvRectangle 1 (0, - 23) (153, 0) (- 1),
        EvPutText 1 ''plastic: 0.90'' (5, - 5)]
   \<and> fst (detect_image sample_env sample_detector ''static/uploads/in.png'' (Fin (1 / 4))
            (sample_world\<lparr>files := [''static/uploads/in.png'' \<mapsto> [137, 80]]\<rparr>)) =
       Inr (2, [\<lparr>class_name = ''plastic'', confidence = Fin (9 / 10), bbox = [0, 0, 1, 1]\<rparr>])
   \<and> files (snd (detect_image sample_env sample_detector ''static/uploads/in.png'' (Fin (1 / 4))
            (sample_world\<lparr>files := [''static/uploads/in.png'' \<mapsto> [137, 80]]\<rparr>))) = [''static/uploads/in.png'' \<mapsto> [137, 80]]
   \<and> heap (snd (detect_image sample_env sample_detector ''static/uploads/in.png'' (Fin (1 / 4))
            (sample_world\<lparr>files := [''static/uploads/in.png'' \<mapsto> [137, 80]]\<rparr>))) 0 = sample_image
   \<and> heap (snd (detect_image sample_env sample_detector ''static/uploads/in.png'' (Fin (1 / 4))
            (sample_world\<lparr>files := [''static/uploads/in.png'' \<mapsto> [137, 80]]\<rparr>))) 1 = sample_image
   \<and> heap (snd (detect_image sample_env sample_detector ''static/uploads/in.png'' (Fin (1 / 4))
            (sample_world\<lparr>files := [''static/uploads/in.png'' \<mapsto> [137, 80]]\<rparr>))) 2 =
       \<lparr>height = 2, width = 2, pixels = [(0, 255, 255), (9, 9, 9), (9, 9, 9), (0, 255, 255)]\<rparr>
   \<and> trace (snd (detect_image sample_env sample_detector ''static/uploads/in.png'' (Fin (1 / 4))
            (sample_world\<lparr>files := [''static/uploads/in.png'' \<mapsto> [137, 80]]\<rparr>))) =
       [EvImread ''static/uploads/in.png'', EvPredict, EvRectangle 2 (0, 0) (1, 1) 2,
        EvRectangle 2 (0, - 23) (153, 0) (- 1), EvPutText 2 ''plastic: 0.90'' (5, - 5)]"
proof -
  define W where "W = sample_world\<lparr>files := [''static/uploads/in.png'' \<mapsto> [137, 80]]\<rparr>"
  have W: "next_addr W = 1" "heap W = (\<lambda>a. sample_image)"
    "files W = [''static/uploads/in.png'' \<mapsto> [137, 80]]" "trace W = []"
    by (simp_all add: W_def sample_world_def)
  have lt: "0 < next_addr W" by (simp add: W)
  have fl: "files W ''static/uploads/in.png'' = Some [137, 80]" by (simp add: W)
  have rd: "read_image sample_env [137, 80] = Some sample_image"
    by (simp add: sample_env_def)
  have mp: "model_predict sample_detector img (Fin (1 / 4)) = Inr [[sample_box]]" for img
    by (simp add: sample_detector_def)
  have an: "annotations sample_env sample_detector (concat [[sample_box]]) =
      Inr [\<lparr>ann_detection =
              \<lparr>class_name = ''plastic'', confidence = Fin (9 / 10), bbox = [0, 0, 1, 1]\<rparr>,
            ann_color = (0, 255, 255), ann_label = ''plastic: 0.90'',
            ann_corner1 = (0, 0), ann_corner2 = (1, 1),
            ann_background = ((0, - 23), (153, 0)),
            ann_strokes = [([(0, 0), (1, 1)], (0, 255, 255)),
                           ([(0, - 23), (153, 0)], (0, 255, 255)),
                           ([(5, - 5)], (0, 0, 0))]\<rparr>]"
    by (simp add: sample_annotation)
  note T = annotator_draws_on_copy [OF lt, of sample_env sample_detector "Fin (1 / 4)" "''static/uploads/in.png''"]
  note c1 = T [THEN conjunct1, rule_format]
  note c3 = T [THEN conjunct2, THEN conjunct2, THEN conjunct1]
  note c4 = T [THEN conjunct2, THEN conjunct2, THEN conjunct2, THEN conjunct1, rule_format]
  note c6 = T [THEN conjunct2, THEN conjunct2, THEN conjunct2, THEN conjunct2, THEN conjunct2,
      THEN conjunct1, rule_format]
  note c7 = T [THEN conjunct2, THEN conjunct2, THEN conjunct2, THEN conjunct2, THEN conjunct2,
      THEN conjunct2, THEN conjunct1, rule_format]
  note c8 = T [THEN conjunct2, THEN conjunct2, THEN conjunct2, THEN conjunct2, THEN conjunct2,
      THEN conjunct2, THEN conjunct2, THEN conjunct1, rule_format]
  note c9 = T [THEN conjunct2, THEN conjunct2, THEN conjunct2, THEN conjunct2, THEN conjunct2,
      THEN conjunct2, THEN conjunct2, THEN conjunct2, rule_format]
  have f1: "fst (detect_frame sample_env sample_detector 0 (Fin (1 / 4)) W) =
      Inr (1, [\<lparr>class_name = ''plastic'', confidence = Fin (9 / 10), bbox = [0, 0, 1, 1]\<rparr>])"
    using c6 [OF mp] by (simp add: sample_annotation W)
  have f2: "heap (snd (detect_frame sample_env sample_detector 0 (Fin (1 / 4)) W)) 0 =
      sample_image"
    using c1 [of 0] by (simp add: W)
  have f3: "heap (snd (detect_frame sample_env sample_detector 0 (Fin (1 / 4)) W)) 1 =
      \<lparr>height = 2, width = 2, pixels = [(0, 255, 255), (9, 9, 9), (9, 9, 9), (0, 255, 255)]\<rparr>"
    and f4: "trace (snd (detect_frame sample_env sample_detector 0 (Fin (1 / 4)) W)) =
      [EvPredict, EvRectangle 1 (0, 0) (1, 1) 2, EvRectangle 1 (0, - 23) (153, 0) (- 1),
       EvPutText 1 ''plastic: 0.90'' (5, - 5)]"
    using c7 [OF conjI [OF mp an]] by (simp_all add: W sample_render annotation_calls_def)
  have g1: "fst (detect_image sample_env sample_detector ''static/uploads/in.png'' (Fin (1 / 4)) W) =
      Inr (2, [\<lparr>class_name = ''plastic'', confidence = Fin (9 / 10), bbox = [0, 0, 1, 1]\<rparr>])"
    using c8 [OF conjI [OF fl conjI [OF rd mp]]] by (simp add: sample_annotation W)
  have g2: "files (snd (detect_image sample_env sample_detector ''static/uploads/in.png''
      (Fin (1 / 4)) W)) = [''static/uploads/in.png'' \<mapsto> [137, 80]]"
    using c3 by (simp add: W)
  have g3: "heap (snd (detect_image sample_env sample_detector ''static/uploads/in.png''
      (Fin (1 / 4)) W)) 0 = sample_image"
    using c4 [of 0] by (simp add: W)
  have g5: "heap (snd (detect_image sample_env sample_detector ''static/uploads/in.png''
      (Fin (1 / 4)) W)) 2 =
      \<lparr>height = 2, width = 2, pixels = [(0, 255, 255), (9, 9, 9), (9, 9, 9), (0, 255, 255)]\<rparr>"
    and g6: "trace (snd (detect_image sample_env sample_detector ''static/uploads/in.png''
      (Fin (1 / 4)) W)) =
      [EvImread ''static/uploads/in.png'', EvPredict, EvRectangle 2 (0, 0) (1, 1) 2,
       EvRectangle 2 (0, - 23) (153, 0) (- 1), EvPutText 2 ''plastic: 0.90'' (5, - 5)]"
    using c9 [OF conjI [OF fl conjI [OF rd conjI [OF mp an]]]]
    by (simp_all add: W sample_render annotation_calls_def numeral_2_eq_2)
  note c5 = T [THEN conjunct2, THEN conjunct2, THEN conjunct2, THEN conjunct2, THEN conjunct1,
      rule_format, OF g1]
  have g4: "heap (snd (detect_image sample_env sample_detector ''static/uploads/in.png''
      (Fin (1 / 4)) W)) 1 = sample_image"
    using c5 fl rd by (auto simp: W)
  from lt f1 f2 f3 f4 g1 g2 g3 g4 g5 g6 show ?thesis
    unfolding W_def by (intro conjI)
qed

text \<open>
  C7, as amended. For a box whose corners convert to the integers \<open>x1, y1, x2, y2\<close>, the
  second drawing call of the annotator is the filled rectangle from
  \<open>(x1, y1 - label_height - 10)\<close> to \<open>(x1 + label_width + 10, y1)\<close>: the top coordinate is not
  clamped, and it is negative exactly when \<open>y1 < label_height + 10\<close>.
\<close>

theorem label_background_not_clamped:
  assumes "py_int (box_x1 box) = Inr x1" "py_int (box_y1 box) = Inr y1"
    "py_int (box_x2 box) = Inr x2" "py_int (box_y2 box) = Inr y2"
    "class_names d (box_cls box) = Some name"
    "rectangle_pts E (x1, y1) (x2, y2) 2 = Inr pts"
    "getTextSize E (name @ '': '' @ format_2f E (box_conf box)) = (label_width, label_height)"
  shows "trace (snd (draw_box E d a box w)) ! Suc (length (trace w)) =
           EvRectangle a (x1, y1 - label_height - 10) (x1 + label_width + 10, y1) (- 1)
    \<and> (y1 - label_height - 10 < 0 \<longleftrightarrow> y1 < label_height + 10)"
  using assms by (auto simp: draw_box_trace nth_append)

text \<open>
  An instance of C7 as amended: the box in the top left corner.
\<close>

theorem label_background_not_clamped_witness:
  "trace (snd (draw_box sample_env sample_detector 1 sample_box sample_world)) ! Suc (length (trace sample_world)) =
           EvRectangle 1 (0, 0 - 13 - 10) (0 + 143 + 10, 0) (- 1)
    \<and> ((0::int) - 13 - 10 < 0 \<longleftrightarrow> (0::int) < 13 + 10)"
proof -
  have "py_int (box_x1 sample_box) = Inr 0" "py_int (box_y1 sample_box) = Inr 0"
    "py_int (box_x2 sample_box) = Inr 1" "py_int (box_y2 sample_box) = Inr 1"
    "class_names sample_detector (box_cls sample_box) = Some ''plastic''"
    "rectangle_pts sample_env (0, 0) (1, 1) 2 = Inr [(0, 0), (1, 1)]"
    "getTextSize sample_env (''plastic'' @ '': '' @ format_2f sample_env (box_conf sample_box)) = (143, 13)"
    by (simp_all add: sample_box_def sample_detector_def sample_env_def)
  from label_background_not_clamped [OF this] show ?thesis .
qed

text \<open>
  C7 as stated fails: for a box whose top edge is at \<open>y1 = 0\<close> and a label 13 pixels high,
  the label background is requested with its top at \<open>y = -23\<close>.
\<close>

theorem label_background_negative_counterexample:
  "trace (snd (draw_box sample_env sample_detector 1 sample_box sample_world)) =
     [EvRectangle 1 (0, 0) (1, 1) 2, EvRectangle 1 (0, - 23) (153, 0) (- 1),
      EvPutText 1 ''plastic: 0.90'' (5, - 5)]
   \<and> (- 23 :: int) < 0"
proof -
  have "py_int (box_x1 sample_box) = Inr 0" "py_int (box_y1 sample_box) = Inr 0"
    "py_int (box_x2 sample_box) = Inr 1" "py_int (box_y2 sample_box) = Inr 1"
    "class_names sample_detector (box_cls sample_box) = Some ''plastic''"
    by (simp_all add: sample_box_def sample_detector_def)
  from draw_box_trace [OF this, of sample_env 1 sample_world] show ?thesis
    by (simp add: sample_env_def sample_world_def)
qed

text \<open>
  C8 fails on the code. For an image string with two commas the handler decodes the text
  between the first comma and the second, not the whole remainder after the first comma:
  \<^verbatim>\<open>split(',')[1]\<close> is the second piece of the split.
\<close>

theorem image_payload_second_comma:
  "image_payload ''data:image/jpeg;base64,AAAA,BBBB'' = ''AAAA''
   \<and> image_payload ''data:image/jpeg;base64,AAAA,BBBB'' \<noteq> ''AAAA,BBBB''"
  by (simp add: image_payload_def)

text \<open>
  C9. In \<^verbatim>\<open>/detect\<close> the check of the detector handle comes first: while the handle is
  unset, every request, whatever its file part and filename, gets status 500 with the
  model-not-loaded message, and never 400.
\<close>

theorem model_check_precedes_validation:
  "fst (fst (detect E None req w)) = 500
   \<and> fst (fst (detect E None req w)) \<noteq> 400
   \<and> snd (fst (detect E None req w)) =
       Failure ''Model not loaded. Please check if models/best.pt exists.''"
  by (simp add: detect_def model_not_loaded_def)

text \<open>
  C10. In \<^verbatim>\<open>/detect\<close> the confidence field is parsed after the upload has been saved. With
  a valid file and a confidence string that \<^verbatim>\<open>float\<close> rejects, the trace of the request is:
  the file is saved, then the cleanup checks for it and removes it; the answer is 500
  \<^verbatim>\<open>Detection failed: ...\<close> with the parser's message; and when the operating system
  allows the removal, the files are what they were before the request, without the upload.
\<close>

theorem confidence_parsed_after_save:
  assumes "file_field req = Some (name, content)" "name \<noteq> []" "allowed_file name"
    and "save_result E (in_upload_folder (upload_filename E name)) content = (Some written, None)"
    and "form_confidence req = Some s" "parse_float E s = Inl e"
  shows "fst (detect E (Some d) req w) = (500, Failure (''Detection failed: '' @ str e))
    \<and> trace (snd (detect E (Some d) req w)) =
        trace w @ [EvSave (in_upload_folder (upload_filename E name)),
                   EvExists (in_upload_folder (upload_filename E name)),
                   EvRemove (in_upload_folder (upload_filename E name))]
    \<and> (remove_error E (in_upload_folder (upload_filename E name)) = None \<longrightarrow>
          files (snd (detect E (Some d) req w)) =
            (files w)(in_upload_folder (upload_filename E name) := None))"
proof -
  let ?fp = "in_upload_folder (upload_filename E name)"
  let ?w1 = "w\<lparr>trace := trace w @ [EvSave ?fp], files := (files w)(?fp \<mapsto> written)\<rparr>"
  have body: "detect_body E d (upload_filename E name) content (form_confidence req) w =
      (Inl e, None, ?w1)"
    using assms(4-6) by (simp add: detect_body_def file_save_ok)
  have ex: "files ?w1 ?fp \<noteq> None" by simp
  have run: "detect E (Some d) req w =
      ((500, Failure (''Detection failed: '' @ str e)), cleanup E (Some ?fp) None ?w1)"
    using detect_valid [OF assms(1-3), of E d w] body by simp
  show ?thesis
    by (simp add: run cleanup_trace [OF ex] cleanup_files [OF ex])
qed

text \<open>
  An instance of C10: the confidence value \<^verbatim>\<open>abc\<close>.
\<close>

theorem confidence_parsed_after_save_witness:
  "fst (detect sample_env (Some sample_detector)
          \<lparr>file_field = Some (''a.png'', [137, 80]), form_confidence = Some ''abc''\<rparr>
          sample_world) =
     (500, Failure (''Detection failed: could not convert string to float: '' @ [CHR 0x27]
                    @ ''abc'' @ [CHR 0x27]))
   \<and> trace (snd (detect sample_env (Some sample_detector)
          \<lparr>file_field = Some (''a.png'', [137, 80]), form_confidence = Some ''abc''\<rparr>
          sample_world)) =
       [EvSave ''static/uploads/1700000000000_a.png'',
        EvExists ''static/uploads/1700000000000_a.png'',
        EvRemove ''static/uploads/1700000000000_a.png'']
   \<and> files (snd (detect sample_env (Some sample_detector)
          \<lparr>file_field = Some (''a.png'', [137, 80]), form_confidence = Some ''abc''\<rparr>
          sample_world)) = Map.empty"
proof -
  let ?req = "\<lparr>file_field = Some (''a.png'', [137, 80::nat]), form_confidence = Some ''abc''\<rparr>"
  have fp: "in_upload_folder (upload_filename sample_env ''a.png'') =
      ''static/uploads/1700000000000_a.png''"
    by (simp add: in_upload_folder_def upload_folder_def upload_filename_sample)
  have h1: "file_field ?req = Some (''a.png'', [137, 80])" and h2: "''a.png'' \<noteq> []"
    and h4: "save_result sample_env (in_upload_folder (upload_filename sample_env ''a.png''))
      [137, 80] = (Some [137, 80], None)"
    and h5: "form_confidence ?req = Some ''abc''"
    and h6: "parse_float sample_env ''abc'' =
      Inl (Exn ''ValueError'' (''could not convert string to float: '' @ [CHR 0x27]
                                 @ ''abc'' @ [CHR 0x27]))"
    and re: "remove_error sample_env = (\<lambda>path. None)"
    by (simp_all add: sample_env_def)
  from confidence_parsed_after_save [OF h1 h2 allowed_png h4 h5 h6, of sample_detector sample_world] show ?thesis
    by (simp add: fp re sample_world_def)
qed

end
